theory Spec2Isabelle
  imports Complex_Main "HOL-Library.Sublist" "HOL-Library.Multiset"
begin

section \<open>JavaScript values used by script.js\<close>

text \<open>
  A JavaScript number is modelled as an exact rational or the not-a-number value.
  Infinities, negative zero and rounding of IEEE doubles are not modelled: the script only
  adds, subtracts, compares and takes minima of the numbers read from the table and of
  pixel positions.
\<close>

datatype jsnum = NaN | Num rat

text \<open>\<open>ToNumber\<close> of a value that may be \<open>undefined\<close> (\<open>None\<close>): \<open>undefined\<close> becomes \<open>NaN\<close>.\<close>

fun number :: "jsnum option \<Rightarrow> jsnum" where
  "number None = NaN"
| "number (Some v) = v"

text \<open>\<open>a - b\<close> and \<open>Math.min(a, b)\<close>: \<open>NaN\<close> is contagious in both.\<close>

fun js_sub :: "jsnum \<Rightarrow> jsnum \<Rightarrow> jsnum" where
  "js_sub (Num a) (Num b) = Num (a - b)"
| "js_sub _ _ = NaN"

fun Math_min :: "jsnum \<Rightarrow> jsnum \<Rightarrow> jsnum" where
  "Math_min (Num a) (Num b) = Num (min a b)"
| "Math_min _ _ = NaN"

text \<open>\<open>a || b\<close> on numbers: \<open>NaN\<close> and \<open>0\<close> are falsy.\<close>

fun js_or :: "jsnum \<Rightarrow> jsnum \<Rightarrow> jsnum" where
  "js_or NaN b = b"
| "js_or (Num a) b = (if a = 0 then b else Num a)"

text \<open>\<open>xs[i]\<close> for a natural index: \<open>undefined\<close> (\<open>None\<close>) out of range.\<close>

definition nth_opt :: "'a list \<Rightarrow> nat \<Rightarrow> 'a option" where
  "nth_opt xs i = (if i < length xs then Some (xs ! i) else None)"

text \<open>
  \<open>xs[i]\<close> for an arbitrary number \<open>i\<close>: only a non-negative integer below the length
  names an element; \<open>-1\<close>, a fraction or \<open>NaN\<close> read \<open>undefined\<close>.
\<close>

fun js_index :: "'a list \<Rightarrow> jsnum \<Rightarrow> 'a option" where
  "js_index xs NaN = None"
| "js_index xs (Num r) =
     (if 0 \<le> r \<and> r = of_int \<lfloor>r\<rfloor> then nth_opt xs (nat \<lfloor>r\<rfloor>) else None)"

text \<open>\<open>xs[xs.length - 1]\<close>.\<close>

definition last_opt :: "'a list \<Rightarrow> 'a option" where
  "last_opt xs = (if xs = [] then None else Some (last xs))"

text \<open>\<open>xs.indexOf(x)\<close>: the first position of \<open>x\<close>, or \<open>-1\<close>.\<close>

fun indexOf :: "'a list \<Rightarrow> 'a \<Rightarrow> int" where
  "indexOf [] x = -1"
| "indexOf (y # ys) x =
     (if y = x then 0 else (let k = indexOf ys x in if k < 0 then -1 else k + 1))"

text \<open>\<open>xs[k]\<close> for an integer \<open>k\<close> as \<open>indexOf\<close> returns it.\<close>

definition int_index :: "'a list \<Rightarrow> int \<Rightarrow> 'a option" where
  "int_index xs k = (if 0 \<le> k then nth_opt xs (nat k) else None)"

text \<open>\<open>[...new Set(xs)]\<close>: the distinct elements in order of first appearance.\<close>

definition uniq :: "'a list \<Rightarrow> 'a list" where
  "uniq xs = fold (\<lambda>x acc. if x \<in> set acc then acc else acc @ [x]) xs []"

section \<open>Records and the filter evaluator\<close>

text \<open>
  One record of the table, as \<open>processData(csv)\<close> builds it. The field \<open>values\<close> is
  written \<open>values_d\<close> (\<open>values\<close> is a reserved word here).
\<close>

record datum =
  nutrientType :: string
  nutrient :: string
  region :: string
  values_d :: "jsnum list"

record filters =
  filter_nutrientType :: string
  filter_regions :: "string list"

text \<open>\<open>filters.regions.includes(d.region)\<close>.\<close>

definition includes_js :: "'a list \<Rightarrow> 'a \<Rightarrow> bool" where
  "includes_js xs x = (x \<in> set xs)"

text \<open>
  \<open>filterData(data, filters)\<close>: \<open>Array.prototype.filter\<close> builds a new array of the elements
  the callback accepts, in their order; the callback only reads its arguments, so
  \<open>data\<close> is the same list afterwards.
\<close>

definition filterData :: "datum list \<Rightarrow> filters \<Rightarrow> datum list" where
  "filterData data fs =
     filter (\<lambda>d.
       if filter_nutrientType fs \<noteq> nutrientType d then False
       else if \<not> includes_js (filter_regions fs) (region d) then False
       else True) data"

section \<open>The library and the table normalizer\<close>

text \<open>
  The functions of d3 and of the language whose code is not in script.js are parameters of
  the model, collected in one record: the conversion of a string to a number (unary
  \<open>+\<close>), a linear scale applied to a number (\<open>d3.scaleLinear().domain(d).range(r)(x)\<close>),
  the rounding of a domain by \<open>scale.nice()\<close>, and \<open>delaunay.find(x, y, i)\<close> on the
  triangulation of a list of points. Nothing is assumed about them except where a theorem
  says so.
\<close>

type_synonym point = "jsnum \<times> jsnum"

record d3 =
  toNumber :: "string \<Rightarrow> jsnum"
  scaleLinear :: "jsnum \<times> jsnum \<Rightarrow> jsnum \<times> jsnum \<Rightarrow> jsnum \<Rightarrow> jsnum"
  nice :: "jsnum \<times> jsnum \<Rightarrow> jsnum \<times> jsnum"
  delaunay_find :: "point list \<Rightarrow> rat \<Rightarrow> rat \<Rightarrow> jsnum \<Rightarrow> jsnum"

text \<open>\<open>+v\<close> for a string that may be \<open>undefined\<close>.\<close>

fun unary_plus :: "d3 \<Rightarrow> string option \<Rightarrow> jsnum" where
  "unary_plus L None = NaN"
| "unary_plus L (Some s) = toNumber L s"

text \<open>
  A parsed row: the three descriptive fields and the lookup \<open>d[year]\<close> of a column by its
  label. The parsed table: the column labels and the rows.
\<close>

record csv_row =
  row_Type :: string
  row_Nutrient :: string
  row_Region :: string
  row_cell :: "string \<Rightarrow> string option"

record csv =
  columns :: "string list"
  rows :: "csv_row list"

record table =
  table_data :: "datum list"
  table_years :: "string list"
  table_nutrientTypes :: "string list"
  table_regions :: "string list"

text \<open>\<open>processData(csv)\<close>; \<open>csv.columns.slice(3)\<close> drops the three descriptive columns.\<close>

definition processData :: "d3 \<Rightarrow> csv \<Rightarrow> table" where
  "processData L c =
     (let ys = drop 3 (columns c);
          nts = uniq (map row_Type (rows c));
          rs = uniq (map row_Region (rows c));
          ds = map (\<lambda>d. \<lparr> nutrientType = row_Type d, nutrient = row_Nutrient d,
                          region = row_Region d,
                          values_d = map (\<lambda>year. unary_plus L (row_cell d year)) ys \<rparr>) (rows c)
      in \<lparr> table_data = ds, table_years = ys, table_nutrientTypes = nts, table_regions = rs \<rparr>)"

section \<open>Library functions with a short documented behaviour\<close>

text \<open>
  \<open>d3.min\<close> and \<open>d3.max\<close> of an array of values: \<open>undefined\<close> and \<open>NaN\<close> entries are
  skipped, and the result is \<open>undefined\<close> when nothing is left.
\<close>

fun comparable :: "jsnum option list \<Rightarrow> rat list" where
  "comparable [] = []"
| "comparable (Some (Num r) # vs) = r # comparable vs"
| "comparable (_ # vs) = comparable vs"

definition d3_min :: "jsnum option list \<Rightarrow> jsnum option" where
  "d3_min vs = (case comparable vs of [] \<Rightarrow> None | r # rs \<Rightarrow> Some (Num (fold min rs r)))"

definition d3_max :: "jsnum option list \<Rightarrow> jsnum option" where
  "d3_max vs = (case comparable vs of [] \<Rightarrow> None | r # rs \<Rightarrow> Some (Num (fold max rs r)))"

text \<open>
  \<open>d3.ascending(a, b)\<close>: \<open>-1\<close>, \<open>0\<close> or \<open>1\<close> for two numbers, \<open>NaN\<close> when either is
  \<open>undefined\<close> or \<open>NaN\<close>.
\<close>

fun ascending :: "jsnum option \<Rightarrow> jsnum option \<Rightarrow> jsnum" where
  "ascending (Some (Num a)) (Some (Num b)) =
     (if a < b then Num (-1) else if a > b then Num 1 else Num 0)"
| "ascending _ _ = NaN"

text \<open>
  \<open>Array.prototype.sort\<close> with a comparator, as \<open>selection.sort\<close> uses it: a stable sort,
  here by insertion; \<open>x\<close> goes behind \<open>y\<close> only when the comparator is positive. With a
  comparator that is not an order (it returns \<open>NaN\<close>) the language leaves the result to the
  implementation; every claim about the order below is stated for numeric keys.
\<close>

fun insert_by :: "('a \<Rightarrow> 'a \<Rightarrow> jsnum) \<Rightarrow> 'a \<Rightarrow> 'a list \<Rightarrow> 'a list" where
  "insert_by cmp x [] = [x]"
| "insert_by cmp x (y # ys) =
     (case cmp x y of
        Num r \<Rightarrow> if 0 < r then y # insert_by cmp x ys else x # y # ys
      | NaN \<Rightarrow> x # y # ys)"

definition array_sort :: "('a \<Rightarrow> 'a \<Rightarrow> jsnum) \<Rightarrow> 'a list \<Rightarrow> 'a list" where
  "array_sort cmp xs = foldr (insert_by cmp) xs []"

text \<open>
  \<open>d3.scaleOrdinal()\<close>: a domain, a range and the value for an unknown input (\<open>None\<close> is
  the default, under which an unknown input is appended to the domain). Setting the domain
  keeps the first occurrence of each value. A call returns \<open>range[i % range.length]\<close> for
  the position \<open>i\<close> of the input in the domain.
\<close>

record ordinal =
  ordinal_domain :: "string list"
  ordinal_range :: "string list"
  ordinal_unknown :: "string option"

definition set_domain :: "ordinal \<Rightarrow> string list \<Rightarrow> ordinal" where
  "set_domain sc xs = sc\<lparr> ordinal_domain := uniq xs \<rparr>"

definition range_at :: "ordinal \<Rightarrow> nat \<Rightarrow> string option" where
  "range_at sc i =
     (if ordinal_range sc = [] then None
      else nth_opt (ordinal_range sc) (i mod length (ordinal_range sc)))"

definition ordinal_call :: "ordinal \<Rightarrow> string \<Rightarrow> string option \<times> ordinal" where
  "ordinal_call sc x =
     (let i = indexOf (ordinal_domain sc) x in
      if i < 0 then
        (case ordinal_unknown sc of
           Some u \<Rightarrow> (Some u, sc)
         | None \<Rightarrow> (range_at sc (length (ordinal_domain sc)),
                    sc\<lparr> ordinal_domain := ordinal_domain sc @ [x] \<rparr>))
      else (range_at sc (nat i), sc))"

text \<open>The scale called for each element of a selection in turn.\<close>

fun ordinal_calls :: "ordinal \<Rightarrow> string list \<Rightarrow> string option list \<times> ordinal" where
  "ordinal_calls sc [] = ([], sc)"
| "ordinal_calls sc (x # xs) =
     (let (v, sc1) = ordinal_call sc x; (vs, sc2) = ordinal_calls sc1 xs in (v # vs, sc2))"

definition COLOR_SCHEME :: "string list" where
  "COLOR_SCHEME = [''#1f77b4'', ''#ff7f0e'']"

text \<open>
  The colour scale of \<open>renderRegionsControl\<close>: the same palette, the selected regions as
  its domain, and \<open>currentColor\<close> for an unknown input. \<open>regionLabelColor\<close> is the colour it
  gives to the label of region \<open>d\<close> when the regions \<open>currentValues\<close> are selected.
\<close>

definition regionsControl_colorScale :: "string list \<Rightarrow> ordinal" where
  "regionsControl_colorScale currentValues =
     set_domain \<lparr> ordinal_domain = [], ordinal_range = COLOR_SCHEME,
                  ordinal_unknown = Some ''currentColor'' \<rparr> currentValues"

definition regionLabelColor :: "string list \<Rightarrow> string \<Rightarrow> string option" where
  "regionLabelColor currentValues d = fst (ordinal_call (regionsControl_colorScale currentValues) d)"

section \<open>The chart\<close>

text \<open>
  The elements the chart draws: one group per series (its path, its end-of-line label and
  the opacity attribute of the group, absent until a pointer move sets it), and one marker
  per highlighted series.
\<close>

record line_el =
  line_datum :: datum
  line_stroke :: "string option"
  line_d :: "point list"
  line_text_fill :: "string option"
  line_text_y :: jsnum
  line_opacity :: "rat option"

record dot_el =
  dot_datum :: datum
  dot_fill :: "string option"
  dot_transform :: point
  dot_text :: "jsnum option"

record rect =
  rect_x :: jsnum
  rect_y :: jsnum
  rect_width :: jsnum
  rect_height :: jsnum

text \<open>A flattened sample \<open>[year, value, nutrient]\<close>; \<open>years[i]\<close> may be \<open>undefined\<close>.\<close>

type_synonym sample = "string option \<times> jsnum \<times> string"

text \<open>\<open>iDelaunay\<close>: declared without a value, reset to \<open>null\<close>, or a number.\<close>

datatype hint = Undefined | Null | Index jsnum

datatype error = TypeError

text \<open>
  The variables and elements that \<open>renderChart\<close> closes over. \<open>delaunay\<close> and \<open>gLine\<close> are
  \<open>undefined\<close> (\<open>None\<close>) until the first \<open>processData()\<close>. The overlay group \<open>gDots\<close> is its
  \<open>display\<close> attribute (\<open>None\<close> when the attribute is removed, which shows the group) and its
  markers; the variable \<open>gDot\<close> is the selection of exactly these markers.
\<close>

record chart =
  years :: "string list"
  width :: rat
  data :: "datum list"
  regions :: "string list"
  flatData :: "sample list"
  delaunay :: "point list option"
  iDelaunay :: hint
  gLine :: "line_el list option"
  gDots_display :: "string option"
  gDots_dots :: "dot_el list"
  yScale_domain :: "jsnum \<times> jsnum"
  colorScale :: ordinal
  thresholdRect :: "rect option"

definition margin_top :: rat where "margin_top = 30"
definition margin_right :: rat where "margin_right = 180"
definition margin_bottom :: rat where "margin_bottom = 30"
definition margin_left :: rat where "margin_left = 30"
definition height :: rat where "height = 600"

text \<open>
  \<open>xScale\<close> has the domain \<open>[years[0], years[years.length - 1]]\<close>, which the scale converts
  to numbers, and the range \<open>[margin.left, width - margin.right]\<close>; it is applied to a year
  label. \<open>yScale\<close> has the current domain and the range \<open>[height - margin.bottom, margin.top]\<close>.
\<close>

definition xScale :: "d3 \<Rightarrow> chart \<Rightarrow> string option \<Rightarrow> jsnum" where
  "xScale L c year =
     scaleLinear L (unary_plus L (nth_opt (years c) 0), unary_plus L (last_opt (years c)))
       (Num margin_left, Num (width c - margin_right)) (unary_plus L year)"

definition yScale :: "d3 \<Rightarrow> chart \<Rightarrow> jsnum option \<Rightarrow> jsnum" where
  "yScale L c v =
     scaleLinear L (yScale_domain c) (Num (height - margin_bottom), Num margin_top) (number v)"

text \<open>
  \<open>lineGenerator(values)\<close>: the points \<open>(xScale(years[i]), yScale(d))\<close> handed to the curve,
  one for every entry of \<open>values\<close>.
\<close>

definition lineGenerator :: "d3 \<Rightarrow> chart \<Rightarrow> jsnum list \<Rightarrow> point list" where
  "lineGenerator L c vs =
     map (\<lambda>(i, v). (xScale L c (nth_opt (years c) i), yScale L c (Some v))) (enumerate 0 vs)"

text \<open>The key of the data join, \<open>`${d.region}-${d.nutrient}`\<close>.\<close>

definition key :: "datum \<Rightarrow> string" where
  "key d = region d @ ''-'' @ nutrient d"

text \<open>
  The keyed data join of d3-selection (\<open>selection.data(data, key).join(...)\<close>), which the
  specification describes in its sections 4.4 and 9: the existing elements are held by
  key, the first element of a key winning; each new datum takes the element of its key,
  which is then used up, or has a new element created for it. An element that is taken
  over keeps the attributes that \<open>updateChart\<close> does not set, here its opacity.
\<close>

fun bindKey :: "(string \<times> line_el) list \<Rightarrow> datum list \<Rightarrow> line_el option list" where
  "bindKey pool [] = []"
| "bindKey pool (d # ds) =
     (case map_of pool (key d) of
        Some l \<Rightarrow> Some l # bindKey (filter (\<lambda>p. fst p \<noteq> key d) pool) ds
      | None \<Rightarrow> None # bindKey pool ds)"

text \<open>
  The label pass of \<open>updateChart\<close>, over the series in sorted order: \<open>cur\<close> is
  \<open>currentLabelY\<close>, \<open>natY i\<close> the natural position \<open>yScale\<close> of the final value of series
  \<open>i\<close>.
\<close>

fun labelPass :: "(nat \<Rightarrow> jsnum) \<Rightarrow> jsnum \<Rightarrow> nat list \<Rightarrow> (nat \<times> jsnum) list" where
  "labelPass natY cur [] = []"
| "labelPass natY cur (i # is) =
     (let y = natY i; cur' = Math_min (js_sub cur (Num 12)) y
      in (i, cur') # labelPass natY cur' is)"

text \<open>The final value \<open>d.values[d.values.length - 1]\<close> of the series at position \<open>i\<close>.\<close>

definition finalValue :: "datum list \<Rightarrow> nat \<Rightarrow> jsnum option" where
  "finalValue ds i = (case nth_opt ds i of None \<Rightarrow> None | Some d \<Rightarrow> last_opt (values_d d))"

text \<open>The positions of the series in the order \<open>gLine.sort(...)\<close> gives them.\<close>

definition sortedSeries :: "datum list \<Rightarrow> nat list" where
  "sortedSeries ds =
     array_sort (\<lambda>a b. ascending (finalValue ds a) (finalValue ds b)) [0..<length ds]"

definition naturalY :: "d3 \<Rightarrow> chart \<Rightarrow> nat \<Rightarrow> jsnum" where
  "naturalY L c i = yScale L c (finalValue (data c) i)"

definition labelYs :: "d3 \<Rightarrow> chart \<Rightarrow> (nat \<times> jsnum) list" where
  "labelYs L c = labelPass (naturalY L c) (Num height) (sortedSeries (data c))"

text \<open>The \<open>y\<close> attribute that the label pass gives to the label of series \<open>i\<close>.\<close>

definition renderedY :: "d3 \<Rightarrow> chart \<Rightarrow> nat \<Rightarrow> jsnum" where
  "renderedY L c i = number (map_of (labelYs L c) i)"

text \<open>
  \<open>updateChart()\<close>: the threshold rectangle, the join of the series elements with the
  current data, their stroke, path and label fill, and the label positions. The y axis is
  drawn by \<open>d3.axisLeft\<close> from \<open>yScale\<close> and is not modelled beyond the scale's domain.
\<close>

definition updateChart :: "d3 \<Rightarrow> chart \<Rightarrow> chart" where
  "updateChart L c =
     (let r = \<lparr> rect_x = Num margin_left,
                rect_y = js_or (yScale L c (Some (Num 100))) (Num (height - margin_bottom)),
                rect_width = Num (width c - margin_left - margin_right),
                rect_height = js_or (js_sub (Num (height - margin_bottom))
                                       (yScale L c (Some (Num 100)))) (Num 0) \<rparr>;
          old = (case gLine c of None \<Rightarrow> [] | Some ls \<Rightarrow> ls);
          joined = bindKey (map (\<lambda>l. (key (line_datum l), l)) old) (data c);
          (strokes, sc1) = ordinal_calls (colorScale c) (map region (data c));
          (fills, sc2) = ordinal_calls sc1 (map region (data c));
          els = map (\<lambda>i. \<lparr> line_datum = data c ! i,
                            line_stroke = strokes ! i,
                            line_d = lineGenerator L c (values_d (data c ! i)),
                            line_text_fill = fills ! i,
                            line_text_y = renderedY L c i,
                            line_opacity = (case joined ! i of None \<Rightarrow> None
                                            | Some l \<Rightarrow> line_opacity l) \<rparr>)
                    [0..<length (data c)]
      in c\<lparr> thresholdRect := Some r, colorScale := sc2, gLine := Some els \<rparr>)"

text \<open>The inner \<open>processData()\<close> of \<open>renderChart\<close>. \<open>yExtent\<close> is \<open>[minY, maxY]\<close>.\<close>

definition yExtent :: "datum list \<Rightarrow> jsnum \<times> jsnum" where
  "yExtent ds =
     (let minY = Math_min (Num 90)
                   (number (d3_min (map (\<lambda>d. d3_min (map Some (values_d d))) ds)));
          maxY = d3_max (map (\<lambda>d. d3_max (map Some (values_d d))) ds)
      in (minY, number maxY))"

definition flatten :: "string list \<Rightarrow> datum list \<Rightarrow> sample list" where
  "flatten ys ds =
     concat (map (\<lambda>d. map (\<lambda>(i, v). (nth_opt ys i, v, nutrient d)) (enumerate 0 (values_d d))) ds)"

definition chart_processData :: "d3 \<Rightarrow> chart \<Rightarrow> chart" where
  "chart_processData L c =
     (let c1 = c\<lparr> yScale_domain := nice L (yExtent (data c)) \<rparr>;
          c2 = c1\<lparr> regions := uniq (map region (data c1)) \<rparr>;
          c3 = c2\<lparr> colorScale := set_domain (colorScale c2) (regions c2) \<rparr>;
          c4 = c3\<lparr> flatData := flatten (years c3) (data c3) \<rparr>;
          c5 = c4\<lparr> delaunay :=
                      Some (map (\<lambda>s. (xScale L c4 (fst s), yScale L c4 (Some (fst (snd s)))))
                              (flatData c4)) \<rparr>;
          c6 = c5\<lparr> iDelaunay := Null \<rparr>
      in updateChart L c6)"

definition updateData :: "d3 \<Rightarrow> datum list \<Rightarrow> chart \<Rightarrow> chart" where
  "updateData L newData c = chart_processData L (c\<lparr> data := newData \<rparr>)"

text \<open>
  \<open>renderChart(container, years, data)\<close>: the state before the first \<open>updateData\<close>; \<open>w\<close> is
  the width read from the container. The overlay group starts hidden and empty, the scale
  \<open>yScale\<close> with d3's default domain \<open>[0, 1]\<close>.
\<close>

definition renderChart :: "rat \<Rightarrow> string list \<Rightarrow> datum list \<Rightarrow> chart" where
  "renderChart w ys ds =
     \<lparr> years = ys, width = w, data = ds, regions = [], flatData = [], delaunay = None,
       iDelaunay = Undefined, gLine = None, gDots_display = Some ''none'', gDots_dots = [],
       yScale_domain = (Num 0, Num 1),
       colorScale = \<lparr> ordinal_domain = [], ordinal_range = COLOR_SCHEME, ordinal_unknown = None \<rparr>,
       thresholdRect = None \<rparr>"

section \<open>The pointer handlers\<close>


text \<open>\<open>iDelaunay || 0\<close> and \<open>i !== iDelaunay\<close>.\<close>

fun hint_or_0 :: "hint \<Rightarrow> jsnum" where
  "hint_or_0 (Index j) = js_or j (Num 0)"
| "hint_or_0 _ = Num 0"

fun strict_ne :: "jsnum \<Rightarrow> hint \<Rightarrow> bool" where
  "strict_ne (Num a) (Index (Num b)) = (a \<noteq> b)"
| "strict_ne _ _ = True"

text \<open>
  \<open>handleMouseMove(event)\<close> with the pointer at \<open>(xm, ym)\<close>. The result is the state the
  handler leaves and the exception it ends with, if any: calling a method of an \<open>undefined\<close>
  variable and destructuring \<open>undefined\<close> both throw a \<open>TypeError\<close>. \<open>iDelaunay\<close> is assigned
  before the sample is read, so it keeps the new index when the read throws.
\<close>

definition handleMouseMove :: "d3 \<Rightarrow> rat \<times> rat \<Rightarrow> chart \<Rightarrow> chart \<times> error option" where
  "handleMouseMove L p c =
     (case delaunay c of
        None \<Rightarrow> (c, Some TypeError)
      | Some pts \<Rightarrow>
          (let i = delaunay_find L pts (fst p) (snd p) (hint_or_0 (iDelaunay c)) in
           if strict_ne i (iDelaunay c) then
             (let c1 = c\<lparr> iDelaunay := Index i \<rparr> in
              case js_index (flatData c1) i of
                None \<Rightarrow> (c1, Some TypeError)
              | Some (year, value, nutr) \<Rightarrow>
                  (case gLine c1 of
                     None \<Rightarrow> (c1, Some TypeError)
                   | Some ls \<Rightarrow>
                       (let ls' = map (\<lambda>l. l\<lparr> line_opacity :=
                                       Some (if nutrient (line_datum l) = nutr then 1 else 1 / 10) \<rparr>) ls;
                            highlightedData = filter (\<lambda>d. nutrient d = nutr) (data c1);
                            iYear = (case year of None \<Rightarrow> -1 | Some y \<Rightarrow> indexOf (years c1) y);
                            (dfills, sc) = ordinal_calls (colorScale c1) (map region highlightedData);
                            dots = map (\<lambda>k. \<lparr> dot_datum = highlightedData ! k,
                                              dot_fill = dfills ! k,
                                              dot_transform =
                                                (xScale L c1 year,
                                                 yScale L c1 (int_index (values_d (highlightedData ! k)) iYear)),
                                              dot_text = int_index (values_d (highlightedData ! k)) iYear \<rparr>)
                                     [0..<length highlightedData]
                        in (c1\<lparr> gLine := Some ls', colorScale := sc, gDots_dots := dots \<rparr>, None))))
           else (c, None)))"


text \<open>
  A run of pointer moves, each handled in turn; an exception ends the handler it is thrown
  in, not the page, so the next event is handled from the state the failed handler left.
  The result is the final state and the outcome of every handler.
\<close>

fun pointer_moves :: "d3 \<Rightarrow> (rat \<times> rat) list \<Rightarrow> chart \<Rightarrow> chart \<times> error option list" where
  "pointer_moves L [] c = (c, [])"
| "pointer_moves L (p # ps) c =
     (let (c1, e) = handleMouseMove L p c; (c2, es) = pointer_moves L ps c1
      in (c2, e # es))"

section \<open>A reference instance of the library\<close>

text \<open>
  A concrete library, used only to run the model on concrete inputs: the string
  conversion reads a string of decimal digits (the empty string is \<open>0\<close>, as in JavaScript)
  and gives \<open>NaN\<close> for anything else; the linear scale interpolates exactly; \<open>nice\<close> leaves
  the domain as it is; \<open>find\<close> scans all points for the nearest one, the lowest index
  winning a tie, and returns \<open>NaN\<close> when there is no point.
\<close>

fun decimal :: "string \<Rightarrow> nat \<Rightarrow> nat option" where
  "decimal [] n = Some n"
| "decimal (ch # s) n =
     (let k = (of_char ch :: nat) in
      if 48 \<le> k \<and> k \<le> 57 then decimal s (10 * n + (k - 48)) else None)"

definition ref_toNumber :: "string \<Rightarrow> jsnum" where
  "ref_toNumber s = (case decimal s 0 of None \<Rightarrow> NaN | Some n \<Rightarrow> Num (of_nat n))"

fun ref_scaleLinear :: "jsnum \<times> jsnum \<Rightarrow> jsnum \<times> jsnum \<Rightarrow> jsnum \<Rightarrow> jsnum" where
  "ref_scaleLinear (Num d0, Num d1) (Num r0, Num r1) (Num x) =
     (if d1 = d0 then Num ((r0 + r1) / 2)
      else Num (r0 + (x - d0) / (d1 - d0) * (r1 - r0)))"
| "ref_scaleLinear _ _ _ = NaN"

fun dist2 :: "point \<Rightarrow> rat \<Rightarrow> rat \<Rightarrow> rat option" where
  "dist2 (Num px, Num py) x y = Some ((x - px) * (x - px) + (y - py) * (y - py))"
| "dist2 _ x y = None"

fun nearest_from :: "point list \<Rightarrow> rat \<Rightarrow> rat \<Rightarrow> nat \<Rightarrow> (nat \<times> rat) option \<Rightarrow> (nat \<times> rat) option" where
  "nearest_from [] x y k best = best"
| "nearest_from (p # ps) x y k best =
     nearest_from ps x y (Suc k)
       (case dist2 p x y of
          None \<Rightarrow> best
        | Some d \<Rightarrow> (case best of
                       None \<Rightarrow> Some (k, d)
                     | Some (j, e) \<Rightarrow> if d < e then Some (k, d) else best))"

definition ref_find :: "point list \<Rightarrow> rat \<Rightarrow> rat \<Rightarrow> jsnum \<Rightarrow> jsnum" where
  "ref_find pts x y i =
     (case nearest_from pts x y 0 None of None \<Rightarrow> NaN | Some (k, d) \<Rightarrow> Num (of_nat k))"

definition ref_d3 :: d3 where
  "ref_d3 = \<lparr> toNumber = ref_toNumber, scaleLinear = ref_scaleLinear, nice = (\<lambda>d. d),
             delaunay_find = ref_find \<rparr>"

section \<open>Notions used to state the properties\<close>

text \<open>The numbers among the values of a record (\<open>NaN\<close> entries left out).\<close>

definition nums :: "datum \<Rightarrow> rat set" where
  "nums d = {r. Num r \<in> set (values_d d)}"

text \<open>
  The position given to the label that is \<open>k\<close>-th in sorted order, as a plain number
  (\<open>0\<close> stands for \<open>NaN\<close>; the theorems below say when the position is a number).
\<close>

fun the_num :: "jsnum \<Rightarrow> rat" where
  "the_num (Num r) = r"
| "the_num NaN = 0"

definition labelY_sorted :: "d3 \<Rightarrow> chart \<Rightarrow> nat \<Rightarrow> rat" where
  "labelY_sorted L c k = the_num (renderedY L c (sortedSeries (data c) ! k))"

text \<open>
  The state in which pointer moves are handled safely: the index exists and has one point
  per sample, there is a sample, the series selection exists, and the start index of the
  next query names a sample.
\<close>

definition tracking_inv :: "chart \<Rightarrow> bool" where
  "tracking_inv c =
     (case delaunay c of None \<Rightarrow> False
      | Some pts \<Rightarrow> length pts = length (flatData c) \<and> flatData c \<noteq> [] \<and> gLine c \<noteq> None
           \<and> js_index (flatData c) (hint_or_0 (iDelaunay c)) \<noteq> None)"

text \<open>The label pass on plain numbers: \<open>cur\<close> is the position of the label below.\<close>

fun pass :: "rat \<Rightarrow> rat list \<Rightarrow> rat list" where
  "pass cur [] = []"
| "pass cur (y # ys) = min (cur - 12) y # pass (min (cur - 12) y) ys"

section \<open>A small table for concrete runs\<close>

definition ex_years :: "string list" where
  "ex_years = [''2008'', ''2009'']"

definition ex_A :: datum where
  "ex_A = \<lparr> nutrientType = ''Vitamin'', nutrient = ''Vitamin A'', region = ''North'',
           values_d = [Num 95, Num 100] \<rparr>"

definition ex_B :: datum where
  "ex_B = \<lparr> nutrientType = ''Vitamin'', nutrient = ''Vitamin C'', region = ''South'',
           values_d = [Num 120, Num 104] \<rparr>"

definition ex_C :: datum where
  "ex_C = \<lparr> nutrientType = ''Vitamin'', nutrient = ''Folate'', region = ''South'',
           values_d = [Num 90, Num 360] \<rparr>"

definition ex_D :: datum where
  "ex_D = \<lparr> nutrientType = ''Mineral'', nutrient = ''Iron'', region = ''East'',
           values_d = [Num 60, Num 140] \<rparr>"

definition ex_chart :: chart where
  "ex_chart = renderChart 750 ex_years []"

text \<open>
  A parsed table with two rows whose year fields are not all numbers: the first row has
  the text \<open>n/a\<close> for 2008, the second an empty field.
\<close>

definition ex_row1 :: csv_row where
  "ex_row1 = \<lparr> row_Type = ''Vitamin'', row_Nutrient = ''Vitamin D'', row_Region = ''North'',
              row_cell = map_of [(''2008'', ''n/a''), (''2009'', ''100'')] \<rparr>"

definition ex_row2 :: csv_row where
  "ex_row2 = \<lparr> row_Type = ''Vitamin'', row_Nutrient = ''Vitamin E'', row_Region = ''North'',
              row_cell = map_of [(''2008'', ''''), (''2009'', ''95'')] \<rparr>"

definition ex_csv :: csv where
  "ex_csv = \<lparr> columns = [''Type'', ''Nutrient'', ''Region'', ''2008'', ''2009''],
             rows = [ex_row1, ex_row2] \<rparr>"

text \<open>
  The chart after the table is loaded, and the same chart after the pointer has entered,
  moved to \<open>(30, 500)\<close>, left and entered again.
\<close>

definition ex_loaded :: chart where
  "ex_loaded = updateData ref_d3 [ex_A, ex_B, ex_C] ex_chart"



section \<open>The filter evaluator\<close>

lemma filterData_filter:
  "filterData ds fs =
     filter (\<lambda>d. nutrientType d = filter_nutrientType fs \<and> region d \<in> set (filter_regions fs)) ds"
  unfolding filterData_def includes_js_def
  by (rule filter_cong) auto

text \<open>
  Claim C4. For every record set and every filter state, the filter evaluator returns
  exactly the records whose nutrient type equals the selected type and whose region is one
  of the selected regions, in the relative order of the input. The evaluator is a pure
  function of the record list: it returns a new list and the input list is not changed.
\<close>

theorem C4_filterData_exact_and_ordered:
  "filterData ds fs =
     filter (\<lambda>d. nutrientType d = filter_nutrientType fs \<and> region d \<in> set (filter_regions fs)) ds
   \<and> set (filterData ds fs) =
       {d \<in> set ds. nutrientType d = filter_nutrientType fs \<and> region d \<in> set (filter_regions fs)}
   \<and> subseq (filterData ds fs) ds"
proof -
  have eq: "filterData ds fs =
     filter (\<lambda>d. nutrientType d = filter_nutrientType fs \<and> region d \<in> set (filter_regions fs)) ds"
    by (rule filterData_filter)
  have "set (filterData ds fs) =
       {d \<in> set ds. nutrientType d = filter_nutrientType fs \<and> region d \<in> set (filter_regions fs)}"
    unfolding eq by auto
  moreover have "subseq (filterData ds fs) ds"
    unfolding eq by simp
  ultimately show ?thesis using eq by blast
qed

section \<open>The y scale\<close>

lemma updateChart_fields:
  "years (updateChart L c) = years c"
  "width (updateChart L c) = width c"
  "data (updateChart L c) = data c"
  "regions (updateChart L c) = regions c"
  "flatData (updateChart L c) = flatData c"
  "delaunay (updateChart L c) = delaunay c"
  "iDelaunay (updateChart L c) = iDelaunay c"
  "gDots_display (updateChart L c) = gDots_display c"
  "gDots_dots (updateChart L c) = gDots_dots c"
  "yScale_domain (updateChart L c) = yScale_domain c"
  by (simp_all add: updateChart_def Let_def split: prod.splits)

lemma updateData_fields:
  "years (updateData L ds c) = years c"
  "width (updateData L ds c) = width c"
  "data (updateData L ds c) = ds"
  "regions (updateData L ds c) = uniq (map region ds)"
  "flatData (updateData L ds c) = flatten (years c) ds"
  "iDelaunay (updateData L ds c) = Null"
  "gDots_display (updateData L ds c) = gDots_display c"
  "gDots_dots (updateData L ds c) = gDots_dots c"
  "yScale_domain (updateData L ds c) = nice L (yExtent ds)"
  by (simp_all add: updateData_def chart_processData_def Let_def updateChart_fields)

lemma comparable_Some: "set (comparable (map Some vs)) = {r. Num r \<in> set vs}"
proof (induction vs)
  case Nil show ?case by simp
next
  case (Cons v vs) then show ?case by (cases v) auto
qed

lemma d3_min_eq:
  "d3_min vs = (if comparable vs = [] then None else Some (Num (Min (set (comparable vs)))))"
proof (cases "comparable vs")
  case Nil then show ?thesis by (simp add: d3_min_def)
next
  case (Cons r rs)
  have "fold min rs r = Min (set (r # rs))" by (rule Min.set_eq_fold[symmetric])
  with Cons show ?thesis by (simp add: d3_min_def)
qed

lemma d3_max_eq:
  "d3_max vs = (if comparable vs = [] then None else Some (Num (Max (set (comparable vs)))))"
proof (cases "comparable vs")
  case Nil then show ?thesis by (simp add: d3_max_def)
next
  case (Cons r rs)
  have "fold max rs r = Max (set (r # rs))" by (rule Max.set_eq_fold[symmetric])
  with Cons show ?thesis by (simp add: d3_max_def)
qed

lemma comparable_set: "set (comparable vs) = {r. Some (Num r) \<in> set vs}"
proof (induction vs rule: comparable.induct)
qed auto

lemma finite_nums: "finite (nums d)"
proof -
  have "nums d = set (comparable (map Some (values_d d)))" by (simp add: comparable_Some nums_def)
  then show ?thesis by simp
qed

lemma inner_min_set:
  "set (comparable (map (\<lambda>d. d3_min (map Some (values_d d))) ds)) =
     {Min (nums d) | d. d \<in> set ds \<and> nums d \<noteq> {}}"
  unfolding comparable_set
  by (auto simp: d3_min_eq comparable_Some nums_def set_empty[symmetric] simp del: set_empty split: if_splits)

lemma inner_max_set:
  "set (comparable (map (\<lambda>d. d3_max (map Some (values_d d))) ds)) =
     {Max (nums d) | d. d \<in> set ds \<and> nums d \<noteq> {}}"
  unfolding comparable_set
  by (auto simp: d3_max_eq comparable_Some nums_def set_empty[symmetric] simp del: set_empty split: if_splits)

lemma Min_of_mins:
  assumes "V = (\<Union>d\<in>set ds. nums d)" "V \<noteq> {}"
  shows "Min {Min (nums d) | d. d \<in> set ds \<and> nums d \<noteq> {}} = Min V"
proof (rule Min_eqI)
  show "finite {Min (nums d) | d. d \<in> set ds \<and> nums d \<noteq> {}}" by simp
  have fV: "finite V" using assms(1) finite_nums by auto
  show "Min V \<le> y" if "y \<in> {Min (nums d) | d. d \<in> set ds \<and> nums d \<noteq> {}}" for y
  proof -
    from that obtain d where d: "d \<in> set ds" "nums d \<noteq> {}" "y = Min (nums d)" by auto
    then have "y \<in> nums d" using Min_in finite_nums by blast
    then have "y \<in> V" using d assms(1) by auto
    then show ?thesis using fV by simp
  qed
  show "Min V \<in> {Min (nums d) | d. d \<in> set ds \<and> nums d \<noteq> {}}"
  proof -
    have "Min V \<in> V" using fV assms(2) by simp
    then obtain d where d: "d \<in> set ds" "Min V \<in> nums d" using assms(1) by auto
    have "Min (nums d) \<in> V" using d assms(1) Min_in[OF finite_nums, of d] by auto
    then have "Min V \<le> Min (nums d)" using fV by simp
    moreover have "Min (nums d) \<le> Min V" using d finite_nums by simp
    ultimately have "Min (nums d) = Min V" by simp
    then show ?thesis using d by force
  qed
qed

lemma Max_of_maxs:
  assumes "V = (\<Union>d\<in>set ds. nums d)" "V \<noteq> {}"
  shows "Max {Max (nums d) | d. d \<in> set ds \<and> nums d \<noteq> {}} = Max V"
proof (rule Max_eqI)
  show "finite {Max (nums d) | d. d \<in> set ds \<and> nums d \<noteq> {}}" by simp
  have fV: "finite V" using assms(1) finite_nums by auto
  show "y \<le> Max V" if "y \<in> {Max (nums d) | d. d \<in> set ds \<and> nums d \<noteq> {}}" for y
  proof -
    from that obtain d where d: "d \<in> set ds" "nums d \<noteq> {}" "y = Max (nums d)" by auto
    then have "y \<in> nums d" using Max_in finite_nums by blast
    then have "y \<in> V" using d assms(1) by auto
    then show ?thesis using fV by simp
  qed
  show "Max V \<in> {Max (nums d) | d. d \<in> set ds \<and> nums d \<noteq> {}}"
  proof -
    have "Max V \<in> V" using fV assms(2) by simp
    then obtain d where d: "d \<in> set ds" "Max V \<in> nums d" using assms(1) by auto
    have "Max (nums d) \<in> V" using d assms(1) Max_in[OF finite_nums, of d] by auto
    then have "Max (nums d) \<le> Max V" using fV by simp
    moreover have "Max V \<le> Max (nums d)" using d finite_nums by simp
    ultimately have "Max (nums d) = Max V" by simp
    then show ?thesis using d by force
  qed
qed

lemma yExtent_eq:
  assumes V: "V = (\<Union>d\<in>set ds. nums d)" and ne: "V \<noteq> {}"
  shows "yExtent ds = (Num (min 90 (Min V)), Num (Max V))"
proof -
  let ?A = "{Min (nums d) | d. d \<in> set ds \<and> nums d \<noteq> {}}"
  let ?B = "{Max (nums d) | d. d \<in> set ds \<and> nums d \<noteq> {}}"
  from V ne obtain d where "d \<in> set ds" "nums d \<noteq> {}" by auto
  then have "?A \<noteq> {}" "?B \<noteq> {}" by auto
  then have neA: "comparable (map (\<lambda>d. d3_min (map Some (values_d d))) ds) \<noteq> []"
    and neB: "comparable (map (\<lambda>d. d3_max (map Some (values_d d))) ds) \<noteq> []"
    using inner_min_set[of ds] inner_max_set[of ds] by auto
  have "d3_min (map (\<lambda>d. d3_min (map Some (values_d d))) ds) = Some (Num (Min V))"
    using neA Min_of_mins[OF V ne]
    by (simp add: d3_min_eq[of "map (\<lambda>d. d3_min (map Some (values_d d))) ds"] inner_min_set)
  moreover have "d3_max (map (\<lambda>d. d3_max (map Some (values_d d))) ds) = Some (Num (Max V))"
    using neB Max_of_maxs[OF V ne]
    by (simp add: d3_max_eq[of "map (\<lambda>d. d3_max (map Some (values_d d))) ds"] inner_max_set)
  ultimately show ?thesis by (simp add: yExtent_def)
qed

lemma updateChart_gLine:
  "\<exists>els. gLine (updateChart L c) = Some els \<and> length els = length (data c)
     \<and> (\<forall>i<length (data c). line_text_y (els ! i) = renderedY L c i
            \<and> line_datum (els ! i) = data c ! i)"
  by (simp add: updateChart_def Let_def split: prod.splits)

lemma naturalY_cong:
  "data c = data c' \<Longrightarrow> yScale_domain c = yScale_domain c' \<Longrightarrow> naturalY L c = naturalY L c'"
  by (simp add: naturalY_def yScale_def fun_eq_iff)

lemma labelYs_cong:
  "data c = data c' \<Longrightarrow> yScale_domain c = yScale_domain c' \<Longrightarrow> labelYs L c = labelYs L c'"
  by (simp add: labelYs_def naturalY_cong[of c c'])

lemma renderedY_cong:
  "data c = data c' \<Longrightarrow> yScale_domain c = yScale_domain c' \<Longrightarrow> renderedY L c = renderedY L c'"
  by (simp add: renderedY_def fun_eq_iff labelYs_cong[of c c'])

lemma updateData_updateChart:
  "\<exists>c6. updateData L ds c = updateChart L c6 \<and> data c6 = ds \<and> gLine c6 = gLine c
     \<and> years c6 = years c \<and> width c6 = width c \<and> yScale_domain c6 = nice L (yExtent ds)
     \<and> colorScale c6 = set_domain (colorScale c) (uniq (map region ds))"
  unfolding updateData_def chart_processData_def Let_def
  by (intro exI conjI, rule refl) simp_all

lemma updateData_gLine:
  "\<exists>els. gLine (updateData L ds c) = Some els \<and> length els = length ds
     \<and> (\<forall>i<length ds. line_text_y (els ! i) = renderedY L (updateData L ds c) i
            \<and> line_datum (els ! i) = ds ! i)"
proof -
  obtain c6 where c6: "updateData L ds c = updateChart L c6" "data c6 = ds"
    using updateData_updateChart by blast
  have "renderedY L c6 = renderedY L (updateChart L c6)"
    by (rule renderedY_cong) (simp_all add: updateChart_fields)
  then show ?thesis
    using updateChart_gLine[of L c6] c6 by simp
qed

text \<open>
  Claim C3. On a data update whose visible records hold at least one number, the domain
  given to the y scale has the lower bound \<open>min(90, m)\<close> and the upper bound \<open>M\<close>, for the
  least and the greatest number \<open>m\<close> and \<open>M\<close> among the values of all visible records, and
  the scale's domain is this pair rounded by \<open>nice\<close>. If every visible value is at least
  \<open>95\<close> the lower bound before rounding is \<open>90\<close>; if the least visible value is \<open>60\<close> it is
  \<open>60\<close>.
\<close>

theorem C3_yScale_domain:
  assumes V: "V = (\<Union>d\<in>set ds. nums d)" and ne: "V \<noteq> {}"
  shows "yExtent ds = (Num (min 90 (Min V)), Num (Max V))
       \<and> yScale_domain (updateData L ds c) = nice L (Num (min 90 (Min V)), Num (Max V))
       \<and> ((\<forall>r\<in>V. 95 \<le> r) \<longrightarrow> fst (yExtent ds) = Num 90)
       \<and> (60 \<in> V \<and> (\<forall>r\<in>V. 60 \<le> r) \<longrightarrow> fst (yExtent ds) = Num 60)"
proof -
  have fin: "finite V" using V finite_nums by auto
  have e: "yExtent ds = (Num (min 90 (Min V)), Num (Max V))"
    by (rule yExtent_eq[OF V ne])
  have a: "fst (yExtent ds) = Num 90" if "\<forall>r\<in>V. 95 \<le> r"
  proof -
    have "Min V \<in> V" using fin ne by simp
    then have "95 \<le> Min V" using that by blast
    then show ?thesis by (simp add: e)
  qed
  have b: "fst (yExtent ds) = Num 60" if "60 \<in> V \<and> (\<forall>r\<in>V. 60 \<le> r)"
  proof -
    have "Min V = 60" using that fin by (intro Min_eqI) auto
    then show ?thesis by (simp add: e)
  qed
  show ?thesis using e a b by (simp add: updateData_fields)
qed

lemma nums_ex: "nums ex_A = {95, 100}" "nums ex_B = {120, 104}" "nums ex_D = {60, 140}"
  by (auto simp: nums_def ex_A_def ex_B_def ex_D_def)

theorem C3_yScale_domain_witness:
  "(\<Union>d\<in>set [ex_D]. nums d) = {60, 140}
   \<and> yExtent [ex_D] = (Num 60, Num 140)
   \<and> yScale_domain (updateData ref_d3 [ex_D] ex_chart) = (Num 60, Num 140)
   \<and> (\<Union>d\<in>set [ex_A, ex_B]. nums d) = {95, 100, 120, 104}
   \<and> yExtent [ex_A, ex_B] = (Num 90, Num 120)"
proof -
  have V1: "(\<Union>d\<in>set [ex_D]. nums d) = {60, 140}" by (simp add: nums_ex)
  have V2: "(\<Union>d\<in>set [ex_A, ex_B]. nums d) = {95, 100, 120, 104}" by (auto simp: nums_ex)
  have n1: "({60, 140} :: rat set) \<noteq> {}" and n2: "({95, 100, 120, 104} :: rat set) \<noteq> {}" by simp_all
  show ?thesis
    using C3_yScale_domain[OF V1[symmetric] n1, of ref_d3 ex_chart]
          C3_yScale_domain[OF V2[symmetric] n2, of ref_d3 ex_chart] V1 V2
    by (simp add: ref_d3_def)
qed

section \<open>The label pass\<close>

lemma length_pass [simp]: "length (pass cur ys) = length ys"
  by (induction ys arbitrary: cur) auto

lemma labelPass_pass:
  "\<forall>i\<in>set is. natY i = Num (ny i) \<Longrightarrow>
   labelPass natY (Num cur) is = zip is (map Num (pass cur (map ny is)))"
  by (induction "is" arbitrary: cur) (auto simp: Let_def)

lemma pass_0: "ys \<noteq> [] \<Longrightarrow> pass cur ys ! 0 = min (cur - 12) (ys ! 0)"
  by (cases ys) auto

lemma pass_Suc:
  "Suc k < length ys \<Longrightarrow> pass cur ys ! Suc k = min (pass cur ys ! k - 12) (ys ! Suc k)"
proof (induction ys arbitrary: cur k)
  case Nil then show ?case by simp
next
  case (Cons y ys)
  show ?case
  proof (cases k)
    case 0
    with Cons.prems show ?thesis by (cases ys) auto
  next
    case (Suc j)
    with Cons show ?thesis by simp
  qed
qed

lemma pass_le: "k < length ys \<Longrightarrow> pass cur ys ! k \<le> ys ! k"
proof (induction ys arbitrary: cur k)
  case Nil then show ?case by simp
next
  case (Cons y ys) then show ?case by (cases k) auto
qed

lemma mset_insert_by: "mset (insert_by cmp x ys) = add_mset x (mset ys)"
  by (induction ys) (auto split: jsnum.splits)

lemma mset_array_sort: "mset (array_sort cmp xs) = mset xs"
  unfolding array_sort_def by (induction xs) (auto simp: mset_insert_by)

lemma set_insert_by: "set (insert_by cmp x ys) = insert x (set ys)"
  by (induction ys) (auto split: jsnum.splits)

lemma sorted_insert_by:
  assumes "\<And>a b. a \<in> insert x (set ys) \<Longrightarrow> b \<in> insert x (set ys) \<Longrightarrow>
             cmp a b = ascending (Some (Num (f a))) (Some (Num (f b)))"
    and "sorted (map f ys)"
  shows "sorted (map f (insert_by cmp x ys))"
  using assms
proof (induction ys)
  case Nil then show ?case by simp
next
  case (Cons y ys)
  have c: "cmp x y = ascending (Some (Num (f x))) (Some (Num (f y)))"
    using Cons.prems(1) by simp
  have IH: "sorted (map f (insert_by cmp x ys))"
    using Cons by auto
  show ?case
  proof (cases "f x > f y")
    case True
    then have "insert_by cmp x (y # ys) = y # insert_by cmp x ys" using c by simp
    moreover have "\<forall>z\<in>set (insert_by cmp x ys). f y \<le> f z"
      using Cons.prems(2) True by (auto simp: set_insert_by)
    ultimately show ?thesis using IH by simp
  next
    case False
    then have "insert_by cmp x (y # ys) = x # y # ys" using c by auto
    then show ?thesis using Cons.prems(2) False by auto
  qed
qed

lemma sorted_array_sort:
  assumes "\<And>a b. a \<in> set xs \<Longrightarrow> b \<in> set xs \<Longrightarrow>
             cmp a b = ascending (Some (Num (f a))) (Some (Num (f b)))"
  shows "sorted (map f (array_sort cmp xs))"
  using assms
proof (induction xs)
  case Nil then show ?case by (simp add: array_sort_def)
next
  case (Cons x xs)
  have IH: "sorted (map f (array_sort cmp xs))" using Cons by auto
  have s: "set (array_sort cmp xs) = set xs"
    using mset_array_sort[of cmp xs] by (metis set_mset_mset)
  have "sorted (map f (insert_by cmp x (array_sort cmp xs)))"
    by (rule sorted_insert_by) (use Cons.prems s IH in auto)
  then show ?case by (simp add: array_sort_def)
qed

lemma sortedSeries_mset: "mset (sortedSeries ds) = mset [0..<length ds]"
  by (simp add: sortedSeries_def mset_array_sort)

lemma sortedSeries_props:
  "set (sortedSeries ds) = {0..<length ds}" "distinct (sortedSeries ds)"
  "length (sortedSeries ds) = length ds"
proof -
  show "set (sortedSeries ds) = {0..<length ds}"
    using sortedSeries_mset[of ds] by (metis set_mset_mset set_upt)
  show "distinct (sortedSeries ds)"
    using sortedSeries_mset[of ds] by (metis distinct_upt mset_eq_imp_distinct_iff)
  show "length (sortedSeries ds) = length ds"
    using sortedSeries_mset[of ds] by (metis length_upt mset_eq_length minus_nat.diff_0)
qed

text \<open>
  Claim C2. The label pass takes the visible series in ascending order of their final
  value (each series once) and gives the first label the position
  \<open>min(height - 12, naturalY)\<close> and every later label the position
  \<open>min(previousRenderedY - 12, naturalY)\<close>. Hence two labels adjacent in that order are at
  least 12 pixels apart, a label whose natural position is at least 12 pixels above the
  previous label stays at its natural position, and no label is placed below its natural
  position (a larger \<open>y\<close> is lower on the screen). When the scale maps larger values to
  smaller \<open>y\<close>, the natural positions met along the pass do not increase: the pass walks
  from the bottom label upward. The final values and the natural positions are taken to
  be numbers.
\<close>

theorem C2_label_decollision:
  fixes fv ny :: "nat \<Rightarrow> rat"
  assumes fin: "\<And>i. i < length ds \<Longrightarrow> finalValue ds i = Some (Num (fv i))"
      and nat: "\<And>i. i < length ds \<Longrightarrow> naturalY L (updateData L ds c) i = Num (ny i)"
  shows "mset (sortedSeries ds) = mset [0..<length ds]
    \<and> sorted (map fv (sortedSeries ds))
    \<and> (\<exists>els. gLine (updateData L ds c) = Some els \<and> length els = length ds
          \<and> (\<forall>k<length ds. line_text_y (els ! (sortedSeries ds ! k))
                               = Num (labelY_sorted L (updateData L ds c) k)))
    \<and> (ds \<noteq> [] \<longrightarrow> labelY_sorted L (updateData L ds c) 0
                       = min (height - 12) (ny (sortedSeries ds ! 0)))
    \<and> (\<forall>k. Suc k < length ds \<longrightarrow>
           labelY_sorted L (updateData L ds c) (Suc k)
             = min (labelY_sorted L (updateData L ds c) k - 12) (ny (sortedSeries ds ! Suc k)))
    \<and> (\<forall>k. Suc k < length ds \<longrightarrow>
           12 \<le> labelY_sorted L (updateData L ds c) k - labelY_sorted L (updateData L ds c) (Suc k))
    \<and> (\<forall>k. Suc k < length ds \<longrightarrow>
           ny (sortedSeries ds ! Suc k) \<le> labelY_sorted L (updateData L ds c) k - 12 \<longrightarrow>
           labelY_sorted L (updateData L ds c) (Suc k) = ny (sortedSeries ds ! Suc k))
    \<and> (\<forall>k<length ds. labelY_sorted L (updateData L ds c) k \<le> ny (sortedSeries ds ! k))
    \<and> ((\<forall>i j. fv i \<le> fv j \<longrightarrow> ny j \<le> ny i) \<longrightarrow>
         (\<forall>k. Suc k < length ds \<longrightarrow> ny (sortedSeries ds ! Suc k) \<le> ny (sortedSeries ds ! k)))"
proof -
  define order where "order = sortedSeries ds"
  define nys where "nys = map ny order"
  define c' where "c' = updateData L ds c"
  define ry where "ry = labelY_sorted L c'"
  have len: "length order = length ds" and dist: "distinct order"
    and set: "set order = {0..<length ds}"
    by (simp_all add: order_def sortedSeries_props)
  have lnys: "length nys = length ds" by (simp add: nys_def len)
  have srt: "sorted (map fv order)"
    unfolding order_def sortedSeries_def
    by (rule sorted_array_sort) (simp add: fin)
  have lab: "labelYs L c' = zip order (map Num (pass height nys))"
  proof -
    have "\<forall>i\<in>set order. naturalY L c' i = Num (ny i)"
      using nat set by (simp add: c'_def)
    then show ?thesis
      by (simp add: labelYs_def c'_def updateData_fields labelPass_pass order_def nys_def)
  qed
  have rend: "renderedY L c' (order ! k) = Num (pass height nys ! k)" if "k < length ds" for k
  proof -
    have "map_of (zip order (map Num (pass height nys))) (order ! k)
            = Some (map Num (pass height nys) ! k)"
      by (rule map_of_zip_nth) (use that len dist lnys in simp_all)
    then show ?thesis using that lnys by (simp add: renderedY_def lab)
  qed
  have ry: "ry k = pass height nys ! k" if "k < length ds" for k
    using rend[OF that] by (simp add: ry_def labelY_sorted_def c'_def updateData_fields order_def)
  obtain els where els: "gLine c' = Some els" "length els = length ds"
    "\<forall>i<length ds. line_text_y (els ! i) = renderedY L c' i"
    using updateData_gLine[of L ds c] unfolding c'_def by blast
  have mem: "order ! k < length ds" if "k < length ds" for k
    using that set len by (metis atLeastLessThan_iff nth_mem)
  have e: "\<forall>k<length ds. line_text_y (els ! (order ! k)) = Num (ry k)"
    using els(3) mem rend ry by simp
  have r0: "ry 0 = min (height - 12) (ny (order ! 0))" if "ds \<noteq> []"
  proof -
    have "order \<noteq> []" using that len by auto
    then have "map ny order \<noteq> []" "map ny order ! 0 = ny (order ! 0)" by simp_all
    then show ?thesis using pass_0[of "map ny order" height] ry[of 0] that by (simp add: nys_def)
  qed
  have rS: "ry (Suc k) = min (ry k - 12) (ny (order ! Suc k))" if "Suc k < length ds" for k
    using that len lnys ry[of k] ry[of "Suc k"] by (simp add: pass_Suc nys_def)
  have rle: "ry k \<le> ny (order ! k)" if "k < length ds" for k
    using that len lnys pass_le[of k nys height] ry[of k] by (simp add: nys_def)
  have up: "ny (order ! Suc k) \<le> ny (order ! k)"
    if "\<forall>i j. fv i \<le> fv j \<longrightarrow> ny j \<le> ny i" "Suc k < length ds" for k
  proof -
    have "map fv order ! k \<le> map fv order ! Suc k"
      using srt that(2) len by (intro sorted_nth_mono) simp_all
    then have "fv (order ! k) \<le> fv (order ! Suc k)" using that(2) len by simp
    then show ?thesis using that(1) by blast
  qed
  have "mset order = mset [0..<length ds]" by (simp add: order_def sortedSeries_mset)
  with srt els e r0 rS rle up show ?thesis
    unfolding order_def c'_def ry_def
    by auto
qed

section \<open>The pointer handlers: no-op on an unchanged match\<close>

lemma strict_ne_iff: "\<not> strict_ne i h \<longleftrightarrow> (\<exists>j. i = Num j \<and> h = Index (Num j))"
  by (induction i h rule: strict_ne.induct) auto

lemma handleMouseMove_delaunay: "delaunay (fst (handleMouseMove L p c)) = delaunay c"
  by (simp add: handleMouseMove_def Let_def split: option.splits prod.splits)

lemma handleMouseMove_flatData: "flatData (fst (handleMouseMove L p c)) = flatData c"
  by (simp add: handleMouseMove_def Let_def split: option.splits prod.splits)

lemma handleMouseMove_hint:
  "delaunay c = Some pts \<Longrightarrow>
   iDelaunay (fst (handleMouseMove L p c))
     = Index (delaunay_find L pts (fst p) (snd p) (hint_or_0 (iDelaunay c)))
   \<or> (iDelaunay (fst (handleMouseMove L p c)) = iDelaunay c \<and>
      \<not> strict_ne (delaunay_find L pts (fst p) (snd p) (hint_or_0 (iDelaunay c))) (iDelaunay c))"
  by (simp add: handleMouseMove_def Let_def split: option.splits prod.splits)

text \<open>
  Claim C8. A pointer move whose nearest-sample query returns the index that is already
  remembered changes nothing: the handler returns the state as it was, without an
  exception. In particular, when the same pointer position is handled twice in a row and
  the second query, seeded with the first result, returns that result again, the second
  handler call changes nothing.
\<close>

theorem C8_unchanged_match_is_noop:
  assumes "delaunay c = Some pts"
  shows "(iDelaunay c = Index (Num j)
            \<and> delaunay_find L pts (fst p) (snd p) (hint_or_0 (iDelaunay c)) = Num j
          \<longrightarrow> handleMouseMove L p c = (c, None))
       \<and> (delaunay_find L pts (fst p) (snd p) (hint_or_0 (iDelaunay c)) = Num j
            \<and> delaunay_find L pts (fst p) (snd p) (hint_or_0 (Index (Num j))) = Num j
          \<longrightarrow> handleMouseMove L p (fst (handleMouseMove L p c))
                = (fst (handleMouseMove L p c), None))"
proof -
  have noop: "handleMouseMove L p c' = (c', None)"
    if "delaunay c' = Some pts" "iDelaunay c' = Index (Num j)"
       "delaunay_find L pts (fst p) (snd p) (hint_or_0 (iDelaunay c')) = Num j" for c'
    using that by (simp add: handleMouseMove_def Let_def)
  have second: "handleMouseMove L p (fst (handleMouseMove L p c)) = (fst (handleMouseMove L p c), None)"
    if a: "delaunay_find L pts (fst p) (snd p) (hint_or_0 (iDelaunay c)) = Num j"
    and b: "delaunay_find L pts (fst p) (snd p) (hint_or_0 (Index (Num j))) = Num j"
  proof -
    let ?c1 = "fst (handleMouseMove L p c)"
    have d: "delaunay ?c1 = Some pts" using assms by (simp add: handleMouseMove_delaunay)
    have h: "iDelaunay ?c1 = Index (Num j)"
      using handleMouseMove_hint[OF assms, of L p] a by (auto simp: strict_ne_iff)
    show ?thesis by (rule noop[OF d h]) (use h b in simp)
  qed
  show ?thesis using noop[OF assms] second by blast
qed

section \<open>Samples, the nearest-neighbour index and the remembered match\<close>

lemma js_index_defined_iff:
  "js_index xs i \<noteq> None \<longleftrightarrow> (\<exists>n<length xs. i = Num (of_nat n))"
proof (cases i)
  case NaN then show ?thesis by simp
next
  case (Num r)
  show ?thesis
  proof
    assume a: "js_index xs i \<noteq> None"
    then have r: "0 \<le> r" "r = of_int \<lfloor>r\<rfloor>" "nat \<lfloor>r\<rfloor> < length xs"
      using Num by (auto simp: nth_opt_def split: if_splits)
    have "r = of_nat (nat \<lfloor>r\<rfloor>)" using r(1,2) by (metis of_nat_nat zero_le_floor)
    then show "\<exists>n<length xs. i = Num (of_nat n)" using r(3) Num by blast
  next
    assume "\<exists>n<length xs. i = Num (of_nat n)"
    then obtain n where "n < length xs" "i = Num (of_nat n)" by blast
    then show "js_index xs i \<noteq> None" by (simp add: nth_opt_def)
  qed
qed

lemma js_index_length_cong:
  "length xs = length ys \<Longrightarrow> js_index xs i \<noteq> None \<longleftrightarrow> js_index ys i \<noteq> None"
  by (simp only: js_index_defined_iff)

lemma hint_or_0_in_range:
  "js_index xs i \<noteq> None \<Longrightarrow> hint_or_0 (Index i) = i"
proof -
  assume "js_index xs i \<noteq> None"
  then obtain n where "i = Num (of_nat n)" unfolding js_index_defined_iff by blast
  then show ?thesis by simp
qed

lemma js_index_0: "xs \<noteq> [] \<Longrightarrow> js_index xs (Num 0) \<noteq> None"
  by (simp add: nth_opt_def)

lemma handleMouseMove_inv:
  assumes inv: "tracking_inv c" and d: "delaunay c = Some pts"
    and contract: "\<And>x y h. js_index pts h \<noteq> None \<Longrightarrow> js_index pts (delaunay_find L pts x y h) \<noteq> None"
  shows "snd (handleMouseMove L p c) = None \<and> tracking_inv (fst (handleMouseMove L p c))
         \<and> flatData (fst (handleMouseMove L p c)) = flatData c
         \<and> delaunay (fst (handleMouseMove L p c)) = Some pts
         \<and> js_index (flatData c) (delaunay_find L pts (fst p) (snd p) (hint_or_0 (iDelaunay c))) \<noteq> None"
proof -
  from inv d obtain ls where pts: "delaunay c = Some pts" "length pts = length (flatData c)"
    "flatData c \<noteq> []" "gLine c = Some ls" "js_index (flatData c) (hint_or_0 (iDelaunay c)) \<noteq> None"
    by (auto simp: tracking_inv_def split: option.splits)
  define i where "i = delaunay_find L pts (fst p) (snd p) (hint_or_0 (iDelaunay c))"
  have "js_index pts (hint_or_0 (iDelaunay c)) \<noteq> None"
    using pts(2,5) js_index_length_cong[of pts "flatData c"] by simp
  then have "js_index pts i \<noteq> None" unfolding i_def by (rule contract)
  then have ok: "js_index (flatData c) i \<noteq> None"
    using pts(2) js_index_length_cong[of pts "flatData c"] by simp
  then obtain s where s: "js_index (flatData c) i = Some s" by auto
  have hi: "hint_or_0 (Index i) = i" using ok by (rule hint_or_0_in_range)
  show ?thesis
  proof (cases "strict_ne i (iDelaunay c)")
    case False
    then have "handleMouseMove L p c = (c, None)"
      using pts(1) by (simp add: handleMouseMove_def Let_def i_def)
    then show ?thesis using inv d ok by (simp add: i_def)
  next
    case True
    obtain year v nutr where sv: "s = (year, v, nutr)" by (cases s) auto
    show ?thesis
      using True pts s sv hi ok
      by (simp add: handleMouseMove_def Let_def i_def[symmetric] tracking_inv_def split: prod.splits)
  qed
qed

lemma pointer_moves_inv:
  assumes contract: "\<And>x y h. js_index pts h \<noteq> None \<Longrightarrow> js_index pts (delaunay_find L pts x y h) \<noteq> None"
  shows "tracking_inv c \<Longrightarrow> delaunay c = Some pts \<Longrightarrow>
     snd (pointer_moves L ps c) = replicate (length ps) None
     \<and> tracking_inv (fst (pointer_moves L ps c))
     \<and> flatData (fst (pointer_moves L ps c)) = flatData c
     \<and> delaunay (fst (pointer_moves L ps c)) = Some pts"
proof (induction ps arbitrary: c)
  case Nil then show ?case by simp
next
  case (Cons p ps)
  from handleMouseMove_inv[OF Cons.prems contract, of p]
  have h: "snd (handleMouseMove L p c) = None" "tracking_inv (fst (handleMouseMove L p c))"
    "flatData (fst (handleMouseMove L p c)) = flatData c"
    "delaunay (fst (handleMouseMove L p c)) = Some pts" by simp_all
  from Cons.IH[OF h(2) h(4)] h show ?case
    by (auto simp: Let_def split: prod.splits)
qed

text \<open>
  The records the chart receives come from the normalizer through the filter: each holds
  one value per year.
\<close>

lemma processData_values:
  "\<forall>d\<in>set (table_data (processData L t)).
     length (values_d d) = length (table_years (processData L t))"
  by (simp add: processData_def Let_def)

lemma filterData_subset: "set (filterData ds fs) \<subseteq> set ds"
  by (simp add: filterData_def)

lemma updateData_delaunay:
  "delaunay (updateData L ds c) =
     Some (map (\<lambda>s. (xScale L (updateData L ds c) (fst s),
                      yScale L (updateData L ds c) (Some (fst (snd s)))))
             (flatData (updateData L ds c)))"
proof -
  have x: "xScale L c1 = xScale L c2" if "years c1 = years c2" "width c1 = width c2" for c1 c2
    using that by (simp add: xScale_def fun_eq_iff)
  have y: "yScale L c1 = yScale L c2" if "yScale_domain c1 = yScale_domain c2" for c1 c2
    using that by (simp add: yScale_def fun_eq_iff)
  show ?thesis
    unfolding updateData_def chart_processData_def Let_def
    by (simp add: updateChart_fields
          x[of "updateChart L _" "c\<lparr>data := ds\<rparr>"] y[of "updateChart L _" "c\<lparr>yScale_domain := nice L (yExtent ds)\<rparr>"]
          x[of "_\<lparr>flatData := _\<rparr>" "c\<lparr>data := ds\<rparr>"] y[of "_\<lparr>flatData := _\<rparr>" "c\<lparr>yScale_domain := nice L (yExtent ds)\<rparr>"])
qed

lemma enumerate_zip_years:
  assumes "length vs = length ys"
  shows "map (\<lambda>(i, v). (nth_opt ys i, v, n)) (enumerate 0 vs)
         = map (\<lambda>(y, v). (Some y, v, n)) (zip ys vs)"
  using assms by (auto simp: list_eq_iff_nth_eq nth_enumerate_eq nth_opt_def)

lemma flatten_wf:
  assumes "\<forall>d\<in>set ds. length (values_d d) = length ys"
  shows "flatten ys ds = concat (map (\<lambda>d. map (\<lambda>(y, v). (Some y, v, nutrient d)) (zip ys (values_d d))) ds)"
proof -
  have "map (\<lambda>(i, v). (nth_opt ys i, v, nutrient d)) (enumerate 0 (values_d d))
        = map (\<lambda>(y, v). (Some y, v, nutrient d)) (zip ys (values_d d))" if "d \<in> set ds" for d
    by (rule enumerate_zip_years) (use that assms in simp)
  then show ?thesis unfolding flatten_def by (simp cong: map_cong)
qed

lemma nth_concat_equal:
  "\<forall>xs\<in>set xss. length xs = n \<Longrightarrow> r < length xss \<Longrightarrow> k < n \<Longrightarrow>
   concat xss ! (r * n + k) = xss ! r ! k"
proof (induction xss arbitrary: r)
  case Nil then show ?case by simp
next
  case (Cons xs xss)
  show ?case
  proof (cases r)
    case 0 with Cons.prems show ?thesis by (simp add: nth_append)
  next
    case (Suc r')
    have "concat (xs # xss) ! (r * n + k) = concat xss ! (r' * n + k)"
      using Cons.prems Suc by (simp add: nth_append)
    also have "\<dots> = xss ! r' ! k" using Cons.prems Suc by (intro Cons.IH) auto
    finally show ?thesis using Suc by simp
  qed
qed

lemma length_concat_equal:
  "\<forall>xs\<in>set xss. length xs = n \<Longrightarrow> length (concat xss) = length xss * n"
  by (induction xss) auto

lemma flatten_props:
  assumes wf: "\<forall>d\<in>set ds. length (values_d d) = length ys"
  shows "length (flatten ys ds) = length ds * length ys"
    and "r < length ds \<Longrightarrow> k < length ys \<Longrightarrow>
         flatten ys ds ! (r * length ys + k) = (Some (ys ! k), values_d (ds ! r) ! k, nutrient (ds ! r))"
proof -
  let ?xss = "map (\<lambda>d. map (\<lambda>(y, v). (Some y, v, nutrient d)) (zip ys (values_d d))) ds"
  have eq: "flatten ys ds = concat ?xss" by (rule flatten_wf[OF wf])
  have len: "\<forall>xs\<in>set ?xss. length xs = length ys" using wf by auto
  show "length (flatten ys ds) = length ds * length ys"
    using length_concat_equal[OF len] by (simp add: eq)
  show "flatten ys ds ! (r * length ys + k) = (Some (ys ! k), values_d (ds ! r) ! k, nutrient (ds ! r))"
    if "r < length ds" "k < length ys"
  proof -
    have "concat ?xss ! (r * length ys + k) = ?xss ! r ! k"
      by (rule nth_concat_equal[OF len]) (use that in simp_all)
    also have "\<dots> = (Some (ys ! k), values_d (ds ! r) ! k, nutrient (ds ! r))"
      using that wf by simp
    finally show ?thesis by (simp add: eq)
  qed
qed

lemma updateData_tracking_inv:
  assumes "flatten (years c) ds \<noteq> []"
  shows "tracking_inv (updateData L ds c)"
proof -
  obtain els where "gLine (updateData L ds c) = Some els" using updateData_gLine by blast
  then show ?thesis
    using assms
    by (simp add: tracking_inv_def updateData_delaunay updateData_fields nth_opt_def)
qed

text \<open>
  Claim C10. After \<open>updateData\<close> with a non-empty visible record set whose records hold one
  value per year (for a non-empty list of years), the sample list has one entry per record
  and year, record by record and year by year within a record; the nearest-neighbour index
  is built from the pixel positions of exactly these samples, in this order; and the
  remembered match is reset to \<open>null\<close>. Therefore, if a query on this index that starts at a
  valid sample index returns a valid sample index, then every later pointer move is handled
  without an exception and every index a query returns names a sample of the current
  list.
\<close>

theorem C10_samples_index_and_hint:
  assumes wf: "\<forall>d\<in>set ds. length (values_d d) = length (years c)"
    and ne: "ds \<noteq> []" "years c \<noteq> []"
    and contract: "\<And>x y h. js_index (flatData (updateData L ds c)) h \<noteq> None \<Longrightarrow>
        js_index (flatData (updateData L ds c))
          (delaunay_find L (the (delaunay (updateData L ds c))) x y h) \<noteq> None"
  shows "flatData (updateData L ds c)
           = concat (map (\<lambda>d. map (\<lambda>(y, v). (Some y, v, nutrient d)) (zip (years c) (values_d d))) ds)
    \<and> length (flatData (updateData L ds c)) = length ds * length (years c)
    \<and> (\<forall>r<length ds. \<forall>k<length (years c).
          flatData (updateData L ds c) ! (r * length (years c) + k)
            = (Some (years c ! k), values_d (ds ! r) ! k, nutrient (ds ! r)))
    \<and> delaunay (updateData L ds c)
         = Some (map (\<lambda>s. (xScale L (updateData L ds c) (fst s),
                          yScale L (updateData L ds c) (Some (fst (snd s)))))
                   (flatData (updateData L ds c)))
    \<and> iDelaunay (updateData L ds c) = Null
    \<and> (\<forall>ps p. snd (pointer_moves L ps (updateData L ds c)) = replicate (length ps) None
          \<and> flatData (fst (pointer_moves L ps (updateData L ds c))) = flatData (updateData L ds c)
          \<and> delaunay (fst (pointer_moves L ps (updateData L ds c))) = delaunay (updateData L ds c)
          \<and> js_index (flatData (updateData L ds c))
               (delaunay_find L (the (delaunay (updateData L ds c))) (fst p) (snd p)
                  (hint_or_0 (iDelaunay (fst (pointer_moves L ps (updateData L ds c)))))) \<noteq> None)"
proof -
  define c' where "c' = updateData L ds c"
  define pts where "pts = the (delaunay c')"
  have fl: "flatData c' = flatten (years c) ds" by (simp add: c'_def updateData_fields)
  have d: "delaunay c' = Some pts"
    by (simp add: pts_def c'_def updateData_delaunay)
  have lp: "length pts = length (flatData c')"
    using updateData_delaunay[of L ds c] by (simp add: pts_def c'_def)
  have len: "length (flatData c') = length ds * length (years c)"
    using flatten_props(1)[OF wf] by (simp add: fl)
  then have nonempty: "flatten (years c) ds \<noteq> []" using ne fl by auto
  have inv: "tracking_inv c'" unfolding c'_def by (rule updateData_tracking_inv[OF nonempty])
  have con: "js_index pts (delaunay_find L pts x y h) \<noteq> None" if "js_index pts h \<noteq> None" for x y h
    using that contract[of h x y] js_index_length_cong[OF lp]
    by (simp add: c'_def[symmetric] pts_def[symmetric])
  have moves: "snd (pointer_moves L ps c') = replicate (length ps) None
          \<and> flatData (fst (pointer_moves L ps c')) = flatData c'
          \<and> delaunay (fst (pointer_moves L ps c')) = delaunay c'
          \<and> js_index (flatData c')
               (delaunay_find L pts (fst p) (snd p)
                  (hint_or_0 (iDelaunay (fst (pointer_moves L ps c'))))) \<noteq> None" for ps p
  proof -
    from pointer_moves_inv[of pts L c' ps, OF con inv d]
    have m: "snd (pointer_moves L ps c') = replicate (length ps) None"
      "tracking_inv (fst (pointer_moves L ps c'))"
      "flatData (fst (pointer_moves L ps c')) = flatData c'"
      "delaunay (fst (pointer_moves L ps c')) = Some pts" by simp_all
    from handleMouseMove_inv[of "fst (pointer_moves L ps c')" pts L p, OF m(2) m(4) con]
    show ?thesis using m d by simp
  qed
  have "flatData c' = concat (map (\<lambda>d. map (\<lambda>(y, v). (Some y, v, nutrient d)) (zip (years c) (values_d d))) ds)"
    using flatten_wf[OF wf] by (simp add: fl)
  moreover have "\<forall>r<length ds. \<forall>k<length (years c).
          flatData c' ! (r * length (years c) + k)
            = (Some (years c ! k), values_d (ds ! r) ! k, nutrient (ds ! r))"
    using flatten_props(2)[OF wf] by (simp add: fl)
  moreover have "delaunay c' = Some (map (\<lambda>s. (xScale L c' (fst s), yScale L c' (Some (fst (snd s))))) (flatData c'))"
    unfolding c'_def by (rule updateData_delaunay)
  moreover have "iDelaunay c' = Null" by (simp add: c'_def updateData_fields)
  ultimately show ?thesis
    using len moves unfolding c'_def pts_def by blast
qed

section \<open>Pointer enter, leave, and the empty record set\<close>

lemma js_index_Nil: "js_index [] i = None"
  by (cases i) (simp_all add: nth_opt_def)

text \<open>
  Claim C6, as the code behaves. \<open>updateData\<close> accepts an empty record set: no series
  element is drawn, the sample list and the index are empty, and the y scale gets the domain
  \<open>nice([NaN, NaN])\<close>. The next pointer move, however, ends in a \<open>TypeError\<close>, whatever
  \<open>delaunay.find\<close> returns: the remembered match is \<open>null\<close>, so the handler goes on to read
  the sample at the returned index, and an empty list has no sample at any index.
\<close>

theorem C6_empty_data_pointer_move_raises:
  "gLine (updateData L [] c) = Some []
   \<and> flatData (updateData L [] c) = []
   \<and> delaunay (updateData L [] c) = Some []
   \<and> yScale_domain (updateData L [] c) = nice L (NaN, NaN)
   \<and> snd (handleMouseMove L p (updateData L [] c)) = Some TypeError"
proof -
  obtain els where els: "gLine (updateData L [] c) = Some els" "length els = length ([] :: datum list)"
    using updateData_gLine[of L "[]" c] by blast
  have g: "gLine (updateData L [] c) = Some []" using els by simp
  have f: "flatData (updateData L [] c) = []" by (simp add: updateData_fields flatten_def)
  have d: "delaunay (updateData L [] c) = Some []" by (simp add: updateData_delaunay f)
  have y: "yScale_domain (updateData L [] c) = nice L (NaN, NaN)"
    by (simp add: updateData_fields yExtent_def d3_min_def d3_max_def)
  have h: "iDelaunay (updateData L [] c) = Null" by (simp add: updateData_fields)
  have "snd (handleMouseMove L p (updateData L [] c)) = Some TypeError"
    by (simp add: handleMouseMove_def d h f js_index_Nil Let_def)
  with g f d y show ?thesis by simp
qed



section \<open>Series colours\<close>

lemma uniq_fold:
  "set (fold (\<lambda>x acc. if x \<in> set acc then acc else acc @ [x]) xs acc) = set acc \<union> set xs"
  "distinct acc \<Longrightarrow> distinct (fold (\<lambda>x acc. if x \<in> set acc then acc else acc @ [x]) xs acc)"
  by (induction xs arbitrary: acc) auto

lemma set_uniq: "set (uniq xs) = set xs" and distinct_uniq: "distinct (uniq xs)"
  by (simp_all add: uniq_def uniq_fold)

lemma uniq_fold_distinct:
  "distinct (acc @ xs) \<Longrightarrow> fold (\<lambda>x acc. if x \<in> set acc then acc else acc @ [x]) xs acc = acc @ xs"
  by (induction xs arbitrary: acc) auto

lemma uniq_distinct: "distinct xs \<Longrightarrow> uniq xs = xs"
  using uniq_fold_distinct[of "[]" xs] by (simp add: uniq_def)

lemma uniq_idem: "uniq (uniq xs) = uniq xs"
  by (rule uniq_distinct) (rule distinct_uniq)

lemma indexOf_mem: "x \<in> set xs \<Longrightarrow> 0 \<le> indexOf xs x \<and> nat (indexOf xs x) < length xs \<and> xs ! nat (indexOf xs x) = x"
proof (induction xs)
  case Nil then show ?case by simp
next
  case (Cons y ys)
  show ?case
  proof (cases "y = x")
    case True then show ?thesis by simp
  next
    case False
    with Cons have IH: "0 \<le> indexOf ys x" "nat (indexOf ys x) < length ys" "ys ! nat (indexOf ys x) = x"
      by auto
    then show ?thesis using False by (simp add: Let_def nat_add_distrib)
  qed
qed

lemma indexOf_not_mem: "x \<notin> set xs \<Longrightarrow> indexOf xs x = -1"
  by (induction xs) (auto simp: Let_def)

lemma ordinal_call_in_domain:
  "x \<in> set (ordinal_domain sc) \<Longrightarrow>
   ordinal_call sc x = (range_at sc (nat (indexOf (ordinal_domain sc) x)), sc)"
  using indexOf_mem[of x "ordinal_domain sc"] by (simp add: ordinal_call_def Let_def)

lemma ordinal_calls_in_domain:
  "set xs \<subseteq> set (ordinal_domain sc) \<Longrightarrow>
   ordinal_calls sc xs = (map (\<lambda>x. range_at sc (nat (indexOf (ordinal_domain sc) x))) xs, sc)"
  by (induction xs) (simp_all add: ordinal_call_in_domain)

lemma range_at_COLOR_SCHEME:
  "ordinal_range sc = COLOR_SCHEME \<Longrightarrow> range_at sc i = Some (COLOR_SCHEME ! (i mod 2))"
proof -
  assume r: "ordinal_range sc = COLOR_SCHEME"
  have l: "length COLOR_SCHEME = 2" by (simp add: COLOR_SCHEME_def)
  have "COLOR_SCHEME \<noteq> []" by (simp add: COLOR_SCHEME_def)
  then show ?thesis by (simp add: range_at_def nth_opt_def r l)
qed

lemma updateChart_colours:
  assumes dom: "set (map region (data c)) \<subseteq> set (ordinal_domain (colorScale c))"
  shows "colorScale (updateChart L c) = colorScale c"
    and "\<exists>els. gLine (updateChart L c) = Some els \<and> length els = length (data c)
          \<and> (\<forall>i<length (data c).
                line_stroke (els ! i)
                  = range_at (colorScale c) (nat (indexOf (ordinal_domain (colorScale c)) (region (data c ! i))))
              \<and> line_text_fill (els ! i) = line_stroke (els ! i))"
proof -
  have oc: "ordinal_calls (colorScale c) (map region (data c))
        = (map (\<lambda>x. range_at (colorScale c) (nat (indexOf (ordinal_domain (colorScale c)) x)))
             (map region (data c)), colorScale c)"
    by (rule ordinal_calls_in_domain[OF dom])
  show "colorScale (updateChart L c) = colorScale c"
    by (simp add: updateChart_def Let_def oc)
  show "\<exists>els. gLine (updateChart L c) = Some els \<and> length els = length (data c)
          \<and> (\<forall>i<length (data c).
                line_stroke (els ! i)
                  = range_at (colorScale c) (nat (indexOf (ordinal_domain (colorScale c)) (region (data c ! i))))
              \<and> line_text_fill (els ! i) = line_stroke (els ! i))"
    by (simp add: updateChart_def Let_def oc)
qed

lemma updateData_colorScale:
  assumes rng: "ordinal_range (colorScale c) = COLOR_SCHEME"
  shows "ordinal_domain (colorScale (updateData L ds c)) = uniq (map region ds)"
    and "ordinal_range (colorScale (updateData L ds c)) = COLOR_SCHEME"
    and "\<exists>els. gLine (updateData L ds c) = Some els \<and> length els = length ds
          \<and> (\<forall>i<length ds.
                line_stroke (els ! i)
                  = Some (COLOR_SCHEME ! (nat (indexOf (uniq (map region ds)) (region (ds ! i))) mod 2))
              \<and> line_text_fill (els ! i) = line_stroke (els ! i))"
proof -
  obtain c6 where c6: "updateData L ds c = updateChart L c6" "data c6 = ds"
     "colorScale c6 = set_domain (colorScale c) (uniq (map region ds))"
    using updateData_updateChart by blast
  have d6: "ordinal_domain (colorScale c6) = uniq (map region ds)"
    and r6: "ordinal_range (colorScale c6) = COLOR_SCHEME"
    by (simp_all add: c6(3) set_domain_def uniq_idem rng)
  have dom: "set (map region (data c6)) \<subseteq> set (ordinal_domain (colorScale c6))"
    by (simp add: d6 c6(2) set_uniq)
  note u = updateChart_colours[OF dom, of L]
  show "\<exists>els. gLine (updateData L ds c) = Some els \<and> length els = length ds
          \<and> (\<forall>i<length ds.
                line_stroke (els ! i)
                  = Some (COLOR_SCHEME ! (nat (indexOf (uniq (map region ds)) (region (ds ! i))) mod 2))
              \<and> line_text_fill (els ! i) = line_stroke (els ! i))"
    using u(2) by (simp add: c6(1,2) d6 range_at_COLOR_SCHEME[OF r6])
  show "ordinal_domain (colorScale (updateData L ds c)) = uniq (map region ds)"
    "ordinal_range (colorScale (updateData L ds c)) = COLOR_SCHEME"
    using u(1) by (simp_all add: c6(1) d6 r6)
qed

lemma regionLabelColor_eq:
  "regionLabelColor sel r
     = (if r \<in> set sel then Some (COLOR_SCHEME ! (nat (indexOf (uniq sel) r) mod 2))
        else Some ''currentColor'')"
proof (cases "r \<in> set sel")
  case True
  then have "r \<in> set (ordinal_domain (regionsControl_colorScale sel))"
    by (simp add: regionsControl_colorScale_def set_domain_def set_uniq)
  from ordinal_call_in_domain[OF this] True show ?thesis
    by (simp add: regionLabelColor_def range_at_COLOR_SCHEME)
       (simp add: regionsControl_colorScale_def set_domain_def range_at_COLOR_SCHEME)
next
  case False
  then have "indexOf (uniq sel) r = -1" by (simp add: indexOf_not_mem set_uniq)
  then show ?thesis using False
    by (simp add: regionLabelColor_def regionsControl_colorScale_def set_domain_def ordinal_call_def)
qed

text \<open>
  Claim C9, amended. Once the palette is the scale's range, every data update draws each
  series, path and label alike, in the palette colour at position \<open>k mod 2\<close>, where \<open>k\<close> is
  the position of the series' region among the regions of the visible records in order
  of first appearance; the scale's domain is exactly this list of regions, so every drawn
  series has a region of the domain. A region therefore keeps its colour across updates
  as long as its position in that list stays the same. In the regions control, the label
  of a selected region gets the palette colour of its position among the selected
  regions, and the label of a region that is not selected gets \<open>currentColor\<close>.
\<close>

theorem C9_series_colours:
  assumes rng: "ordinal_range (colorScale c) = COLOR_SCHEME"
  shows "(\<exists>els. gLine (updateData L ds c) = Some els \<and> length els = length ds
          \<and> (\<forall>i<length ds.
                line_stroke (els ! i)
                  = Some (COLOR_SCHEME ! (nat (indexOf (uniq (map region ds)) (region (ds ! i))) mod 2))
              \<and> line_text_fill (els ! i) = line_stroke (els ! i)))
    \<and> ordinal_domain (colorScale (updateData L ds c)) = uniq (map region ds)
    \<and> ordinal_range (colorScale (updateData L ds c)) = COLOR_SCHEME
    \<and> (\<forall>d\<in>set ds. region d \<in> set (ordinal_domain (colorScale (updateData L ds c))))
    \<and> regionLabelColor sel r
         = (if r \<in> set sel then Some (COLOR_SCHEME ! (nat (indexOf (uniq sel) r) mod 2))
            else Some ''currentColor'')"
  using updateData_colorScale[OF rng, of L ds] regionLabelColor_eq[of sel r]
  by (simp add: set_uniq)

section \<open>The normalizer's coercion and the series path\<close>

lemma processData_sel:
  "table_years (processData L t) = drop 3 (columns t)"
  "length (table_data (processData L t)) = length (rows t)"
  "r < length (rows t) \<Longrightarrow>
     values_d (table_data (processData L t) ! r)
       = map (\<lambda>year. unary_plus L (row_cell (rows t ! r) year)) (drop 3 (columns t))"
  by (simp_all add: processData_def Let_def)

lemma comparable_drop_NaN:
  "comparable (map Some (filter (\<lambda>v. v \<noteq> NaN) vs)) = comparable (map Some vs)"
proof (induction vs)
  case Nil show ?case by simp
next
  case (Cons v vs) then show ?case by (cases v) auto
qed

lemma yExtent_drop_NaN:
  "yExtent (map (\<lambda>d. d\<lparr> values_d := filter (\<lambda>v. v \<noteq> NaN) (values_d d) \<rparr>) ds) = yExtent ds"
  by (simp add: yExtent_def d3_min_def d3_max_def comp_def comparable_drop_NaN)

lemma lineGenerator_points:
  "length (lineGenerator L c vs) = length vs"
  "k < length vs \<Longrightarrow>
     lineGenerator L c vs ! k = (xScale L c (nth_opt (years c) k), yScale L c (Some (vs ! k)))"
  by (simp_all add: lineGenerator_def nth_enumerate_eq)

lemma lineGenerator_cong:
  "years c = years c' \<Longrightarrow> width c = width c' \<Longrightarrow> yScale_domain c = yScale_domain c' \<Longrightarrow>
   lineGenerator L c = lineGenerator L c'"
  by (simp add: lineGenerator_def xScale_def yScale_def fun_eq_iff)

lemma updateChart_line_d:
  "\<exists>els. gLine (updateChart L c) = Some els \<and> length els = length (data c)
     \<and> (\<forall>i<length (data c). line_d (els ! i) = lineGenerator L c (values_d (data c ! i)))"
  by (simp add: updateChart_def Let_def split: prod.splits)

lemma updateData_line_d:
  "\<exists>els. gLine (updateData L ds c) = Some els \<and> length els = length ds
     \<and> (\<forall>i<length ds. line_d (els ! i) = lineGenerator L (updateData L ds c) (values_d (ds ! i)))"
proof -
  obtain c6 where c6: "updateData L ds c = updateChart L c6" "data c6 = ds"
    using updateData_updateChart by blast
  have "lineGenerator L c6 = lineGenerator L (updateChart L c6)"
    by (rule lineGenerator_cong) (simp_all add: updateChart_fields)
  then show ?thesis
    using updateChart_line_d[of L c6] c6 by simp
qed

text \<open>
  Claim C7, amended. The normalizer never raises: every year field of every row goes
  through unary \<open>+\<close>, so the record's value is what that conversion gives for the field,
  \<open>NaN\<close> for a field it cannot read and a number otherwise (for an empty field the
  language's conversion gives \<open>0\<close>, not \<open>NaN\<close>). Downstream nothing raises either: \<open>NaN\<close>
  values do not affect the y scale's domain, and the line generator hands one point per
  value to the path, the point of a \<open>NaN\<close> value included, so the path is not split and no
  point is skipped.
\<close>

theorem C7_coercion_and_path:
  "length (table_data (processData L t)) = length (rows t)
   \<and> (\<forall>r<length (rows t).
         values_d (table_data (processData L t) ! r)
           = map (\<lambda>year. unary_plus L (row_cell (rows t ! r) year)) (table_years (processData L t)))
   \<and> (\<forall>r<length (rows t). \<forall>k<length (table_years (processData L t)). \<forall>s.
         row_cell (rows t ! r) (table_years (processData L t) ! k) = Some s \<longrightarrow>
         values_d (table_data (processData L t) ! r) ! k = toNumber L s)
   \<and> yExtent (map (\<lambda>d. d\<lparr> values_d := filter (\<lambda>v. v \<noteq> NaN) (values_d d) \<rparr>) ds) = yExtent ds
   \<and> (\<exists>els. gLine (updateData L ds c) = Some els \<and> length els = length ds
         \<and> (\<forall>i<length ds. line_d (els ! i)
                = lineGenerator L (updateData L ds c) (values_d (ds ! i))))
   \<and> length (lineGenerator L c vs) = length vs
   \<and> (\<forall>k<length vs. lineGenerator L c vs ! k
          = (xScale L c (nth_opt (years c) k), yScale L c (Some (vs ! k))))"
  using updateData_line_d[of L ds c]
  by (simp add: processData_sel yExtent_drop_NaN lineGenerator_points)

section \<open>Concrete runs\<close>

lemma ref_d3_sel:
  "toNumber ref_d3 = ref_toNumber" "scaleLinear ref_d3 = ref_scaleLinear"
  "nice ref_d3 d = d" "delaunay_find ref_d3 = ref_find"
  by (simp_all add: ref_d3_def)

lemma ex_final: "finalValue [ex_A, ex_B, ex_C] 0 = Some (Num 100)"
  "finalValue [ex_A, ex_B, ex_C] (Suc 0) = Some (Num 104)"
  "finalValue [ex_A, ex_B, ex_C] (Suc (Suc 0)) = Some (Num 360)"
  by (simp_all add: finalValue_def nth_opt_def last_opt_def ex_A_def ex_B_def ex_C_def)

lemma ex_extent: "yExtent [ex_A, ex_B, ex_C] = (Num 90, Num 360)"
  by (simp add: yExtent_def d3_min_def d3_max_def ex_A_def ex_B_def ex_C_def)

lemma ex_domain: "yScale_domain (updateData ref_d3 [ex_A, ex_B, ex_C] ex_chart) = (Num 90, Num 360)"
  by (simp add: updateData_fields ex_extent ref_d3_sel)

lemma ex_natural:
  "naturalY ref_d3 (updateData ref_d3 [ex_A, ex_B, ex_C] ex_chart) 0 = Num 550"
  "naturalY ref_d3 (updateData ref_d3 [ex_A, ex_B, ex_C] ex_chart) (Suc 0) = Num 542"
  "naturalY ref_d3 (updateData ref_d3 [ex_A, ex_B, ex_C] ex_chart) (Suc (Suc 0)) = Num 30"
  by (simp_all add: naturalY_def yScale_def ex_domain updateData_fields(3) ex_final
        height_def margin_top_def margin_bottom_def ref_d3_sel)

lemma ex_sorted: "sortedSeries [ex_A, ex_B, ex_C] = [0, Suc 0, Suc (Suc 0)]"
proof -
  have "[0..<length [ex_A, ex_B, ex_C]] = [0, Suc 0, Suc (Suc 0)]" by (simp add: upt_rec)
  then show ?thesis
    by (simp add: sortedSeries_def array_sort_def ex_final)
qed

lemma ex_labelYs:
  "labelYs ref_d3 (updateData ref_d3 [ex_A, ex_B, ex_C] ex_chart)
     = [(0, Num 550), (Suc 0, Num 538), (Suc (Suc 0), Num 30)]"
  by (simp add: labelYs_def updateData_fields(3) ex_sorted ex_natural height_def)

lemma ex_labels:
  "map line_text_y (the (gLine (updateData ref_d3 [ex_A, ex_B, ex_C] ex_chart)))
     = [Num 550, Num 538, Num 30]"
proof -
  obtain els where els: "gLine (updateData ref_d3 [ex_A, ex_B, ex_C] ex_chart) = Some els"
     "length els = length [ex_A, ex_B, ex_C]"
     "\<forall>i<length [ex_A, ex_B, ex_C]. line_text_y (els ! i)
         = renderedY ref_d3 (updateData ref_d3 [ex_A, ex_B, ex_C] ex_chart) i"
    using updateData_gLine[of ref_d3 "[ex_A, ex_B, ex_C]" ex_chart] by blast
  have "line_text_y (els ! 0) = Num 550" "line_text_y (els ! Suc 0) = Num 538"
       "line_text_y (els ! Suc (Suc 0)) = Num 30"
    using els(3) by (simp_all add: renderedY_def ex_labelYs)
  moreover have "map line_text_y els = [line_text_y (els ! 0), line_text_y (els ! Suc 0), line_text_y (els ! Suc (Suc 0))]"
    using els(2) by (auto simp: list_eq_iff_nth_eq less_Suc_eq)
  ultimately show ?thesis using els(1) by simp
qed

lemma less3: "i < Suc (Suc (Suc 0)) \<Longrightarrow> i = 0 \<or> i = Suc 0 \<or> i = Suc (Suc 0)" by arith

theorem C2_label_decollision_witness:
  "finalValue [ex_A, ex_B, ex_C] 0 = Some (Num 100)
   \<and> finalValue [ex_A, ex_B, ex_C] (Suc 0) = Some (Num 104)
   \<and> finalValue [ex_A, ex_B, ex_C] (Suc (Suc 0)) = Some (Num 360)
   \<and> naturalY ref_d3 (updateData ref_d3 [ex_A, ex_B, ex_C] ex_chart) 0 = Num 550
   \<and> naturalY ref_d3 (updateData ref_d3 [ex_A, ex_B, ex_C] ex_chart) (Suc 0) = Num 542
   \<and> naturalY ref_d3 (updateData ref_d3 [ex_A, ex_B, ex_C] ex_chart) (Suc (Suc 0)) = Num 30
   \<and> map line_text_y (the (gLine (updateData ref_d3 [ex_A, ex_B, ex_C] ex_chart)))
        = [Num 550, Num 538, Num 30]
   \<and> labelY_sorted ref_d3 (updateData ref_d3 [ex_A, ex_B, ex_C] ex_chart) 0 = 550
   \<and> labelY_sorted ref_d3 (updateData ref_d3 [ex_A, ex_B, ex_C] ex_chart) (Suc 0) = 550 - 12
   \<and> 12 \<le> labelY_sorted ref_d3 (updateData ref_d3 [ex_A, ex_B, ex_C] ex_chart) (Suc 0)
           - labelY_sorted ref_d3 (updateData ref_d3 [ex_A, ex_B, ex_C] ex_chart) (Suc (Suc 0))"
proof -
  have f: "finalValue [ex_A, ex_B, ex_C] i = Some (Num ([100, 104, 360] ! i))"
    if "i < length [ex_A, ex_B, ex_C]" for i
    using that less3[of i] ex_final by auto
  have n: "naturalY ref_d3 (updateData ref_d3 [ex_A, ex_B, ex_C] ex_chart) i = Num ([550, 542, 30] ! i)"
    if "i < length [ex_A, ex_B, ex_C]" for i
    using that less3[of i] ex_natural by auto
  note th = C2_label_decollision[of "[ex_A, ex_B, ex_C]" "(!) [100, 104, 360]" ref_d3 ex_chart
        "(!) [550, 542, 30]", OF f n]
  have a: "labelY_sorted ref_d3 (updateData ref_d3 [ex_A, ex_B, ex_C] ex_chart) 0 = 550"
    using th by (simp add: ex_sorted height_def)
  have b: "labelY_sorted ref_d3 (updateData ref_d3 [ex_A, ex_B, ex_C] ex_chart) (Suc 0) = 550 - 12"
    using th a by (simp add: ex_sorted)
  have g: "12 \<le> labelY_sorted ref_d3 (updateData ref_d3 [ex_A, ex_B, ex_C] ex_chart) (Suc 0)
           - labelY_sorted ref_d3 (updateData ref_d3 [ex_A, ex_B, ex_C] ex_chart) (Suc (Suc 0))"
    using th by simp
  show ?thesis using ex_final ex_natural ex_labels a b g by simp
qed

lemma nearest_from_bound:
  "nearest_from pts x y k best = Some (j, d) \<Longrightarrow>
     best = Some (j, d) \<or> (k \<le> j \<and> j < k + length pts)"
proof (induction pts arbitrary: k best)
  case Nil then show ?case by simp
next
  case (Cons p pts)
  from Cons.IH[OF Cons.prems[simplified]] show ?case
    by (auto split: option.splits if_splits)
qed

lemma nearest_from_Some:
  "best \<noteq> None \<or> (\<exists>p\<in>set pts. dist2 p x y \<noteq> None) \<Longrightarrow> nearest_from pts x y k best \<noteq> None"
proof (induction pts arbitrary: k best)
  case Nil then show ?case by simp
next
  case (Cons p pts)
  show ?case
    unfolding nearest_from.simps
    by (rule Cons.IH) (use Cons.prems in \<open>auto split: option.splits\<close>)
qed

lemma ref_find_in_range:
  assumes "\<exists>p\<in>set pts. dist2 p x y \<noteq> None"
  shows "js_index pts (ref_find pts x y h) \<noteq> None"
proof -
  from nearest_from_Some[of None pts x y 0] assms
  obtain j d where jd: "nearest_from pts x y 0 None = Some (j, d)" by auto
  from nearest_from_bound[OF jd] have "j < length pts" by simp
  then have "\<exists>n<length pts. ref_find pts x y h = Num (of_nat n)" by (simp add: ref_find_def jd)
  then show ?thesis by (simp only: js_index_defined_iff)
qed

lemma ex_toNumber: "ref_toNumber ''2008'' = Num 2008" "ref_toNumber ''2009'' = Num 2009"
  by (simp_all add: ref_toNumber_def)

lemma ex_flat:
  "flatten ex_years [ex_A, ex_B, ex_C] =
     [(Some ''2008'', Num 95, ''Vitamin A''), (Some ''2009'', Num 100, ''Vitamin A''),
      (Some ''2008'', Num 120, ''Vitamin C''), (Some ''2009'', Num 104, ''Vitamin C''),
      (Some ''2008'', Num 90, ''Folate''), (Some ''2009'', Num 360, ''Folate'')]"
  by (simp add: flatten_def ex_years_def ex_A_def ex_B_def ex_C_def enumerate_eq_zip nth_opt_def upt_rec)

lemma ex_chart_sel: "years ex_chart = ex_years" "width ex_chart = 750"
  "gDots_dots ex_chart = []" "gDots_display ex_chart = Some ''none''"
  by (simp_all add: ex_chart_def renderChart_def)

lemma ex_xScale:
  "xScale ref_d3 (updateData ref_d3 [ex_A, ex_B, ex_C] ex_chart) (Some ''2008'') = Num 30"
  "xScale ref_d3 (updateData ref_d3 [ex_A, ex_B, ex_C] ex_chart) (Some ''2009'') = Num 570"
  by (simp_all add: xScale_def updateData_fields ex_chart_sel ref_d3_sel ex_years_def nth_opt_def
        last_opt_def ex_toNumber margin_left_def margin_right_def)

lemma ex_yScale:
  "yScale ref_d3 (updateData ref_d3 [ex_A, ex_B, ex_C] ex_chart) (Some (Num v))
     = Num (570 - 2 * (v - 90))"
  by (simp add: yScale_def ex_domain ref_d3_sel height_def margin_bottom_def margin_top_def field_simps)

lemma ex_points:
  "delaunay (updateData ref_d3 [ex_A, ex_B, ex_C] ex_chart) =
     Some [(Num 30, Num 560), (Num 570, Num 550), (Num 30, Num 510), (Num 570, Num 542),
           (Num 30, Num 570), (Num 570, Num 30)]"
  by (simp add: updateData_delaunay updateData_fields(5) ex_chart_sel ex_flat ex_xScale ex_yScale)

lemma ex_find:
  "ref_find [(Num 30, Num 560), (Num 570, Num 550), (Num 30, Num 510), (Num 570, Num 542),
           (Num 30, Num 570), (Num 570, Num 30)] 30 500 h = Num 2"
  by (simp add: ref_find_def)

theorem C8_unchanged_match_is_noop_witness:
  "delaunay (updateData ref_d3 [ex_A, ex_B, ex_C] ex_chart) =
     Some [(Num 30, Num 560), (Num 570, Num 550), (Num 30, Num 510), (Num 570, Num 542),
           (Num 30, Num 570), (Num 570, Num 30)]
   \<and> delaunay_find ref_d3 [(Num 30, Num 560), (Num 570, Num 550), (Num 30, Num 510),
         (Num 570, Num 542), (Num 30, Num 570), (Num 570, Num 30)] 30 500
         (hint_or_0 (iDelaunay (updateData ref_d3 [ex_A, ex_B, ex_C] ex_chart))) = Num 2
   \<and> delaunay_find ref_d3 [(Num 30, Num 560), (Num 570, Num 550), (Num 30, Num 510),
         (Num 570, Num 542), (Num 30, Num 570), (Num 570, Num 30)] 30 500
         (hint_or_0 (Index (Num 2))) = Num 2
   \<and> handleMouseMove ref_d3 (30, 500)
        (fst (handleMouseMove ref_d3 (30, 500) (updateData ref_d3 [ex_A, ex_B, ex_C] ex_chart)))
      = (fst (handleMouseMove ref_d3 (30, 500) (updateData ref_d3 [ex_A, ex_B, ex_C] ex_chart)), None)"
  using C8_unchanged_match_is_noop[OF ex_points, of 2 ref_d3 "(30, 500)"] ex_points
  by (simp add: ref_d3_sel ex_find)

theorem C10_samples_index_and_hint_witness:
  "length (values_d ex_A) = length (years ex_chart)
   \<and> length (values_d ex_B) = length (years ex_chart)
   \<and> length (values_d ex_C) = length (years ex_chart)
   \<and> flatData (updateData ref_d3 [ex_A, ex_B, ex_C] ex_chart) =
     [(Some ''2008'', Num 95, ''Vitamin A''), (Some ''2009'', Num 100, ''Vitamin A''),
      (Some ''2008'', Num 120, ''Vitamin C''), (Some ''2009'', Num 104, ''Vitamin C''),
      (Some ''2008'', Num 90, ''Folate''), (Some ''2009'', Num 360, ''Folate'')]
   \<and> iDelaunay (updateData ref_d3 [ex_A, ex_B, ex_C] ex_chart) = Null
   \<and> snd (pointer_moves ref_d3 [(30, 500), (570, 40)] (updateData ref_d3 [ex_A, ex_B, ex_C] ex_chart))
       = [None, None]"
proof -
  have l: "length (values_d ex_A) = length (years ex_chart)"
     "length (values_d ex_B) = length (years ex_chart)"
     "length (values_d ex_C) = length (years ex_chart)"
    by (simp_all add: ex_A_def ex_B_def ex_C_def ex_chart_sel ex_years_def)
  then have wf: "\<forall>d\<in>set [ex_A, ex_B, ex_C]. length (values_d d) = length (years ex_chart)" by simp
  have ne: "[ex_A, ex_B, ex_C] \<noteq> []" "years ex_chart \<noteq> []" by (simp_all add: ex_chart_sel ex_years_def)
  have con: "js_index (flatData (updateData ref_d3 [ex_A, ex_B, ex_C] ex_chart))
          (delaunay_find ref_d3 (the (delaunay (updateData ref_d3 [ex_A, ex_B, ex_C] ex_chart))) x y h) \<noteq> None"
    for x y h
  proof -
    let ?pts = "[(Num 30, Num 560), (Num 570, Num 550), (Num 30, Num 510), (Num 570, Num 542),
           (Num 30, Num 570), (Num 570, Num 30)]"
    have a: "js_index ?pts (ref_find ?pts x y h) \<noteq> None"
      by (rule ref_find_in_range) simp
    have b: "length ?pts = length (flatData (updateData ref_d3 [ex_A, ex_B, ex_C] ex_chart))"
      by (simp add: updateData_fields ex_chart_sel ex_flat)
    have "js_index (flatData (updateData ref_d3 [ex_A, ex_B, ex_C] ex_chart)) (ref_find ?pts x y h) \<noteq> None"
      using a js_index_length_cong[OF b] by blast
    then show ?thesis
      by (simp add: ex_points ref_d3_sel)
  qed
  note th = C10_samples_index_and_hint[of "[ex_A, ex_B, ex_C]" ex_chart ref_d3, OF wf ne con]
  have a: "flatData (updateData ref_d3 [ex_A, ex_B, ex_C] ex_chart) =
     [(Some ''2008'', Num 95, ''Vitamin A''), (Some ''2009'', Num 100, ''Vitamin A''),
      (Some ''2008'', Num 120, ''Vitamin C''), (Some ''2009'', Num 104, ''Vitamin C''),
      (Some ''2008'', Num 90, ''Folate''), (Some ''2009'', Num 360, ''Folate'')]"
    using th by (simp add: ex_chart_sel ex_years_def ex_A_def ex_B_def ex_C_def)
  have b: "snd (pointer_moves ref_d3 [(30, 500), (570, 40)] (updateData ref_d3 [ex_A, ex_B, ex_C] ex_chart))
       = replicate (length [(30::rat, 500::rat), (570, 40)]) None"
    using th by blast
  show ?thesis using l a b th by simp
qed






lemma strokes_of:
  assumes "ordinal_range (colorScale c) = COLOR_SCHEME"
  shows "map line_stroke (the (gLine (updateData L ds c)))
         = map (\<lambda>d. Some (COLOR_SCHEME ! (nat (indexOf (uniq (map region ds)) (region d)) mod 2))) ds"
proof -
  from updateData_colorScale(3)[OF assms, of L ds]
  obtain els where els: "gLine (updateData L ds c) = Some els" "length els = length ds"
    "\<forall>i<length ds. line_stroke (els ! i)
         = Some (COLOR_SCHEME ! (nat (indexOf (uniq (map region ds)) (region (ds ! i))) mod 2))"
    by auto
  then show ?thesis by (simp add: list_eq_iff_nth_eq)
qed

lemma ex_colorScale_range:
  "ordinal_range (colorScale ex_chart) = COLOR_SCHEME"
  "ordinal_range (colorScale (updateData ref_d3 [ex_B, ex_C] ex_chart)) = COLOR_SCHEME"
proof -
  show a: "ordinal_range (colorScale ex_chart) = COLOR_SCHEME"
    by (simp add: ex_chart_def renderChart_def)
  show "ordinal_range (colorScale (updateData ref_d3 [ex_B, ex_C] ex_chart)) = COLOR_SCHEME"
    by (rule updateData_colorScale(2)[OF a])
qed

lemma ex_regions: "region ex_A = ''North''" "region ex_B = ''South''" "region ex_C = ''South''"
  by (simp_all add: ex_A_def ex_B_def ex_C_def)

text \<open>
  Claim C9 as stated fails: a region that stays selected changes colour when a region that
  comes earlier in the table is selected as well. With only South selected its series are
  drawn in the first palette colour; after North is also selected, the South series are
  drawn in the second. The labels of the regions control change in the same way.
\<close>

theorem C9_colour_changes_counterexample:
  "filterData [ex_A, ex_B, ex_C] \<lparr> filter_nutrientType = ''Vitamin'', filter_regions = [''South''] \<rparr>
     = [ex_B, ex_C]
   \<and> filterData [ex_A, ex_B, ex_C]
        \<lparr> filter_nutrientType = ''Vitamin'', filter_regions = [''North'', ''South''] \<rparr>
     = [ex_A, ex_B, ex_C]
   \<and> region ex_B = ''South''
   \<and> map line_stroke (the (gLine (updateData ref_d3 [ex_B, ex_C] ex_chart)))
       = [Some ''#1f77b4'', Some ''#1f77b4'']
   \<and> map line_stroke (the (gLine (updateData ref_d3 [ex_A, ex_B, ex_C]
                                   (updateData ref_d3 [ex_B, ex_C] ex_chart))))
       = [Some ''#1f77b4'', Some ''#ff7f0e'', Some ''#ff7f0e'']
   \<and> regionLabelColor [''South''] ''South'' = Some ''#1f77b4''
   \<and> regionLabelColor [''North'', ''South''] ''South'' = Some ''#ff7f0e''"
proof -
  have f1: "filterData [ex_A, ex_B, ex_C] \<lparr> filter_nutrientType = ''Vitamin'', filter_regions = [''South''] \<rparr>
     = [ex_B, ex_C]"
    by (simp add: filterData_def includes_js_def ex_A_def ex_B_def ex_C_def)
  have f2: "filterData [ex_A, ex_B, ex_C]
        \<lparr> filter_nutrientType = ''Vitamin'', filter_regions = [''North'', ''South''] \<rparr>
     = [ex_A, ex_B, ex_C]"
    by (simp add: filterData_def includes_js_def ex_A_def ex_B_def ex_C_def)
  have s1: "map line_stroke (the (gLine (updateData ref_d3 [ex_B, ex_C] ex_chart)))
       = [Some ''#1f77b4'', Some ''#1f77b4'']"
    by (simp add: strokes_of[OF ex_colorScale_range(1)] ex_regions uniq_def COLOR_SCHEME_def)
  have s2: "map line_stroke (the (gLine (updateData ref_d3 [ex_A, ex_B, ex_C]
                                   (updateData ref_d3 [ex_B, ex_C] ex_chart))))
       = [Some ''#1f77b4'', Some ''#ff7f0e'', Some ''#ff7f0e'']"
    by (simp add: strokes_of[OF ex_colorScale_range(2)] ex_regions uniq_def COLOR_SCHEME_def)
  have l1: "regionLabelColor [''South''] ''South'' = Some ''#1f77b4''"
    by (simp add: regionLabelColor_def regionsControl_colorScale_def set_domain_def uniq_def
          ordinal_call_def range_at_def nth_opt_def COLOR_SCHEME_def)
  have l2: "regionLabelColor [''North'', ''South''] ''South'' = Some ''#ff7f0e''"
    by (simp add: regionLabelColor_def regionsControl_colorScale_def set_domain_def uniq_def
          ordinal_call_def range_at_def nth_opt_def COLOR_SCHEME_def)
  show ?thesis using f1 f2 s1 s2 l1 l2 ex_regions(2) by simp
qed

theorem C9_series_colours_witness:
  "ordinal_range (colorScale ex_chart) = COLOR_SCHEME
   \<and> ordinal_domain (colorScale (updateData ref_d3 [ex_A, ex_B, ex_C] ex_chart)) = [''North'', ''South'']
   \<and> regionLabelColor [''North''] ''North'' = Some ''#1f77b4''
   \<and> regionLabelColor [''North''] ''South'' = Some ''currentColor''"
proof -
  note th = C9_series_colours[OF ex_colorScale_range(1), of ref_d3 "[ex_A, ex_B, ex_C]"]
  have a: "ordinal_domain (colorScale (updateData ref_d3 [ex_A, ex_B, ex_C] ex_chart)) = [''North'', ''South'']"
    using th by (simp add: ex_regions uniq_def)
  have b: "regionLabelColor [''North''] ''North'' = Some ''#1f77b4''"
    using th[of "[''North'']" "''North''"] by (simp add: uniq_def COLOR_SCHEME_def)
  have c: "regionLabelColor [''North''] ''South'' = Some ''currentColor''"
    using th[of "[''North'']" "''South''"] by simp
  show ?thesis using a b c ex_colorScale_range(1) by simp
qed

lemma ex_convert:
  "ref_toNumber ''n/a'' = NaN" "ref_toNumber '''' = Num 0"
  "ref_toNumber ''100'' = Num 100" "ref_toNumber ''95'' = Num 95"
  by (simp_all add: ref_toNumber_def)

lemma ex_csv_values:
  "map values_d (table_data (processData ref_d3 ex_csv)) = [[NaN, Num 100], [Num 0, Num 95]]"
  by (simp add: processData_def Let_def ex_csv_def ex_row1_def ex_row2_def ref_d3_sel ex_convert)

lemma ex_csv_data:
  "table_data (processData ref_d3 ex_csv) =
     [\<lparr> nutrientType = ''Vitamin'', nutrient = ''Vitamin D'', region = ''North'',
         values_d = [NaN, Num 100] \<rparr>,
      \<lparr> nutrientType = ''Vitamin'', nutrient = ''Vitamin E'', region = ''North'',
         values_d = [Num 0, Num 95] \<rparr>]"
  "table_years (processData ref_d3 ex_csv) = [''2008'', ''2009'']"
  by (simp_all add: processData_def Let_def ex_csv_def ex_row1_def ex_row2_def ref_d3_sel ex_convert)

lemma ex_csv_extent:
  "yExtent (table_data (processData ref_d3 ex_csv)) = (Num 0, Num 100)"
  by (simp add: ex_csv_data yExtent_def d3_min_def d3_max_def)

lemma ex_csv_paths:
  "map line_d (the (gLine (updateData ref_d3 (table_data (processData ref_d3 ex_csv)) ex_chart)))
     = [[(Num 30, NaN), (Num 570, Num 30)], [(Num 30, Num 570), (Num 570, Num 57)]]"
proof -
  let ?ds = "table_data (processData ref_d3 ex_csv)"
  let ?c = "updateData ref_d3 ?ds ex_chart"
  obtain els where els: "gLine ?c = Some els" "length els = length ?ds"
    "\<forall>i<length ?ds. line_d (els ! i) = lineGenerator ref_d3 ?c (values_d (?ds ! i))"
    using updateData_line_d[of ref_d3 ?ds ex_chart] by blast
  have dom: "yScale_domain ?c = (Num 0, Num 100)"
    by (simp add: updateData_fields ex_csv_extent ref_d3_sel)
  have x: "xScale ref_d3 ?c (Some ''2008'') = Num 30" "xScale ref_d3 ?c (Some ''2009'') = Num 570"
    by (simp_all add: xScale_def updateData_fields ex_chart_sel ref_d3_sel ex_years_def nth_opt_def
        last_opt_def ex_toNumber margin_left_def margin_right_def)
  have y: "yScale ref_d3 ?c (Some NaN) = NaN" "yScale ref_d3 ?c (Some (Num 100)) = Num 30"
    "yScale ref_d3 ?c (Some (Num 0)) = Num 570" "yScale ref_d3 ?c (Some (Num 95)) = Num 57"
    by (simp_all add: yScale_def dom ref_d3_sel height_def margin_bottom_def margin_top_def)
  have yrs: "years ?c = [''2008'', ''2009'']" by (simp add: updateData_fields ex_chart_sel ex_years_def)
  have l0: "lineGenerator ref_d3 ?c [NaN, Num 100] = [(Num 30, NaN), (Num 570, Num 30)]"
    by (simp add: lineGenerator_def enumerate_eq_zip upt_rec yrs nth_opt_def x y)
  have l1: "lineGenerator ref_d3 ?c [Num 0, Num 95] = [(Num 30, Num 570), (Num 570, Num 57)]"
    by (simp add: lineGenerator_def enumerate_eq_zip upt_rec yrs nth_opt_def x y)
  have len: "length els = Suc (Suc 0)" using els(2) by (simp add: ex_csv_data)
  have "line_d (els ! 0) = [(Num 30, NaN), (Num 570, Num 30)]"
       "line_d (els ! Suc 0) = [(Num 30, Num 570), (Num 570, Num 57)]"
    using els(3) l0 l1 by (simp_all add: ex_csv_data)
  moreover have "map line_d els = [line_d (els ! 0), line_d (els ! Suc 0)]"
    using len by (auto simp: list_eq_iff_nth_eq less_Suc_eq)
  ultimately show ?thesis using els(1) by simp
qed

text \<open>
  Claim C7 as stated fails on a table with an empty field and a field \<open>n/a\<close> (the two
  conversions used here, of the empty string to \<open>0\<close> and of \<open>n/a\<close> to \<open>NaN\<close>, are the
  language's): the empty field becomes \<open>0\<close>, and the path of the series with the \<open>NaN\<close>
  value is a single run of points whose first point has the coordinate \<open>NaN\<close>.
\<close>

theorem C7_empty_field_and_path_counterexample:
  "row_cell ex_row1 ''2008'' = Some ''n/a''
   \<and> row_cell ex_row2 ''2008'' = Some ''''
   \<and> map values_d (table_data (processData ref_d3 ex_csv)) = [[NaN, Num 100], [Num 0, Num 95]]
   \<and> map line_d (the (gLine (updateData ref_d3 (table_data (processData ref_d3 ex_csv)) ex_chart)))
       = [[(Num 30, NaN), (Num 570, Num 30)], [(Num 30, Num 570), (Num 570, Num 57)]]"
  using ex_csv_values ex_csv_paths by (simp add: ex_row1_def ex_row2_def)

theorem C7_coercion_and_path_witness:
  "row_cell (rows ex_csv ! 0) (table_years (processData ref_d3 ex_csv) ! 0) = Some ''n/a''
   \<and> values_d (table_data (processData ref_d3 ex_csv) ! 0) ! 0 = NaN
   \<and> row_cell (rows ex_csv ! 1) (table_years (processData ref_d3 ex_csv) ! 0) = Some ''''
   \<and> values_d (table_data (processData ref_d3 ex_csv) ! 1) ! 0 = Num 0
   \<and> length (lineGenerator ref_d3 ex_loaded [NaN, Num 100]) = 2
   \<and> lineGenerator ref_d3 ex_loaded [NaN, Num 100] ! 0
       = (xScale ref_d3 ex_loaded (Some ''2008''), yScale ref_d3 ex_loaded (Some NaN))"
proof -
  note th = C7_coercion_and_path[of ref_d3 ex_csv "[]" ex_loaded "[NaN, Num 100]"]
  have r: "(0::nat) < length (rows ex_csv)" "(1::nat) < length (rows ex_csv)"
    by (simp_all add: ex_csv_def)
  have r3: "(0::nat) < length (table_years (processData ref_d3 ex_csv))"
    by (simp add: ex_csv_data)
  have c1: "row_cell (rows ex_csv ! 0) (table_years (processData ref_d3 ex_csv) ! 0) = Some ''n/a''"
    by (simp add: ex_csv_data) (simp add: ex_csv_def ex_row1_def)
  have c2: "row_cell (rows ex_csv ! 1) (table_years (processData ref_d3 ex_csv) ! 0) = Some ''''"
    by (simp add: ex_csv_data) (simp add: ex_csv_def ex_row2_def)
  have v1: "values_d (table_data (processData ref_d3 ex_csv) ! 0) ! 0 = toNumber ref_d3 ''n/a''"
    using th r r3 c1 by blast
  have v2: "values_d (table_data (processData ref_d3 ex_csv) ! 1) ! 0 = toNumber ref_d3 ''''"
    using th r r3 c2 by blast
  have l: "length (lineGenerator ref_d3 ex_loaded [NaN, Num 100]) = 2"
    using th by simp
  have p: "lineGenerator ref_d3 ex_loaded [NaN, Num 100] ! 0
       = (xScale ref_d3 ex_loaded (Some ''2008''), yScale ref_d3 ex_loaded (Some NaN))"
    using th by (simp add: ex_loaded_def updateData_fields ex_chart_sel ex_years_def nth_opt_def)
  show ?thesis using c1 c2 v1 v2 l p by (simp add: ref_d3_sel ex_convert)
qed

end
